theory Spec2Isabelle
  imports Complex_Main
begin

section \<open>JavaScript numbers\<close>

text \<open>
  A JavaScript number is a finite value or one of the three special values of IEEE 754.
  Finite values are modelled as exact reals: rounding, overflow to infinity and the sign of
  zero are not modelled. The special values follow IEEE 754, so that \<open>0 / 0\<close> is \<open>NaN\<close>,
  every comparison with \<open>NaN\<close> is false and \<open>NaN\<close> is absorbing.
\<close>

datatype num = Fin real | PInf | NInf | NaN

instantiation num :: "{plus,minus,uminus,times,inverse,abs,ord}"
begin

fun plus_num :: "num \<Rightarrow> num \<Rightarrow> num" where
  "NaN + _ = NaN"
| "_ + NaN = NaN"
| "PInf + NInf = NaN"
| "NInf + PInf = NaN"
| "PInf + _ = PInf"
| "_ + PInf = PInf"
| "NInf + _ = NInf"
| "_ + NInf = NInf"
| "Fin a + Fin b = Fin (a + b)"

fun uminus_num :: "num \<Rightarrow> num" where
  "- Fin a = Fin (- a)"
| "- PInf = NInf"
| "- NInf = PInf"
| "- NaN = NaN"

definition minus_num :: "num \<Rightarrow> num \<Rightarrow> num" where
  "a - b = a + (- b)" for a b :: num

fun times_num :: "num \<Rightarrow> num \<Rightarrow> num" where
  "NaN * _ = NaN"
| "_ * NaN = NaN"
| "Fin a * Fin b = Fin (a * b)"
| "Fin a * PInf = (if a = 0 then NaN else if 0 < a then PInf else NInf)"
| "Fin a * NInf = (if a = 0 then NaN else if 0 < a then NInf else PInf)"
| "PInf * Fin b = (if b = 0 then NaN else if 0 < b then PInf else NInf)"
| "NInf * Fin b = (if b = 0 then NaN else if 0 < b then NInf else PInf)"
| "PInf * PInf = PInf"
| "PInf * NInf = NInf"
| "NInf * PInf = NInf"
| "NInf * NInf = PInf"

fun divide_num :: "num \<Rightarrow> num \<Rightarrow> num" where
  "NaN div _ = NaN"
| "_ div NaN = NaN"
| "Fin a div Fin b =
     (if b = 0 then (if a = 0 then NaN else if 0 < a then PInf else NInf) else Fin (a / b))"
| "Fin a div PInf = Fin 0"
| "Fin a div NInf = Fin 0"
| "PInf div Fin b = (if 0 \<le> b then PInf else NInf)"
| "NInf div Fin b = (if 0 \<le> b then NInf else PInf)"
| "PInf div PInf = NaN"
| "PInf div NInf = NaN"
| "NInf div PInf = NaN"
| "NInf div NInf = NaN"

definition inverse_num :: "num \<Rightarrow> num" where
  "inverse a = Fin 1 div a" for a :: num

fun abs_num :: "num \<Rightarrow> num" where
  "\<bar>Fin a\<bar> = Fin \<bar>a\<bar>"
| "\<bar>PInf\<bar> = PInf"
| "\<bar>NInf\<bar> = PInf"
| "\<bar>NaN\<bar> = NaN"

fun less_num :: "num \<Rightarrow> num \<Rightarrow> bool" where
  "Fin a < Fin b \<longleftrightarrow> a < b"
| "Fin a < PInf \<longleftrightarrow> True"
| "NInf < Fin b \<longleftrightarrow> True"
| "NInf < PInf \<longleftrightarrow> True"
| "(_ :: num) < _ \<longleftrightarrow> False"

fun less_eq_num :: "num \<Rightarrow> num \<Rightarrow> bool" where
  "Fin a \<le> Fin b \<longleftrightarrow> a \<le> b"
| "Fin a \<le> PInf \<longleftrightarrow> True"
| "NInf \<le> Fin b \<longleftrightarrow> True"
| "NInf \<le> PInf \<longleftrightarrow> True"
| "PInf \<le> PInf \<longleftrightarrow> True"
| "NInf \<le> NInf \<longleftrightarrow> True"
| "Fin a \<le> NInf \<longleftrightarrow> False"
| "PInf \<le> Fin b \<longleftrightarrow> False"
| "PInf \<le> NInf \<longleftrightarrow> False"
| "NaN \<le> _ \<longleftrightarrow> False"
| "(_ :: num) \<le> NaN \<longleftrightarrow> False"

instance ..

end

text \<open>A number is finite when it is neither \<open>NaN\<close> nor an infinity (\<open>Number.isFinite\<close>).\<close>

fun isFinite :: "num \<Rightarrow> bool" where
  "isFinite (Fin a) = True"
| "isFinite _ = False"

text \<open>\<open>Math.hypot\<close>: an infinite argument wins over \<open>NaN\<close>.\<close>

fun Math_hypot :: "num \<Rightarrow> num \<Rightarrow> num" where
  "Math_hypot PInf _ = PInf"
| "Math_hypot NInf _ = PInf"
| "Math_hypot _ PInf = PInf"
| "Math_hypot _ NInf = PInf"
| "Math_hypot NaN _ = NaN"
| "Math_hypot _ NaN = NaN"
| "Math_hypot (Fin a) (Fin b) = Fin (sqrt (a * a + b * b))"

fun Math_cos :: "num \<Rightarrow> num" where
  "Math_cos (Fin a) = Fin (cos a)"
| "Math_cos _ = NaN"

fun Math_sin :: "num \<Rightarrow> num" where
  "Math_sin (Fin a) = Fin (sin a)"
| "Math_sin _ = NaN"

fun Math_min :: "num \<Rightarrow> num \<Rightarrow> num" where
  "Math_min NaN _ = NaN"
| "Math_min _ NaN = NaN"
| "Math_min a b = (if a < b then a else b)"

section \<open>Configuration\<close>

text \<open>The constants of \<open>CONFIG.physics\<close> and \<open>CONFIG.game\<close>.\<close>

definition friction :: num where "friction = Fin 0.94"
definition angularFriction :: num where "angularFriction = Fin 0.95"
definition restitution :: num where "restitution = Fin 0.8"
definition stopThreshold :: num where "stopThreshold = Fin 0.05"
definition maxPower :: num where "maxPower = Fin 25"
definition dragScale :: num where "dragScale = Fin 0.15"
definition wobbleStrength :: num where "wobbleStrength = Fin 0.15"
definition ballRadius :: num where "ballRadius = Fin 22"
definition lumieRadius :: num where "lumieRadius = Fin 20"
definition lumieSpacing :: num where "lumieSpacing = Fin 70"
definition cooldown :: int where "cooldown = 4000"

text \<open>The keys of \<open>CONFIG.colors\<close>, which are the values a ball's colour takes.\<close>

datatype color = Green | Blue | Red | Gold | White

section \<open>The environment: random numbers and the clock\<close>

text \<open>
  \<open>Math.random()\<close> and \<open>Date.now()\<close> read the outside world. The environment holds the
  sequence of values each of them will return and how many have been read so far; a call
  returns the next value and advances the position.
\<close>

record environment =
  rnd :: "nat \<Rightarrow> real"
  rpos :: nat
  clk :: "nat \<Rightarrow> int"
  cpos :: nat

definition Math_random :: "environment \<Rightarrow> real \<times> environment" where
  "Math_random e = (rnd e (rpos e), e\<lparr>rpos := rpos e + 1\<rparr>)"

definition Date_now :: "environment \<Rightarrow> int \<times> environment" where
  "Date_now e = (clk e (cpos e), e\<lparr>cpos := cpos e + 1\<rparr>)"

section \<open>Balls\<close>

text \<open>
  The fields of class \<open>Ball\<close>. The coordinates and the radius, \<open>x\<close>, \<open>y\<close> and \<open>r\<close> in the
  source, are \<open>ball_x\<close>, \<open>ball_y\<close> and \<open>ball_r\<close> here. Timestamps are integers
  (milliseconds).
\<close>

record ball =
  ball_x :: num
  ball_y :: num
  ball_r :: num
  color :: color
  vx :: num
  vy :: num
  mass :: num
  angle :: num
  angularVelocity :: num
  heavyPhase :: num
  isLumie :: bool
  lockedUntil :: int
  lastHit :: int

text \<open>The constructor draws the orientation and the heavy-spot offset at random.\<close>

definition new_Ball :: "num \<Rightarrow> num \<Rightarrow> num \<Rightarrow> color \<Rightarrow> bool \<Rightarrow> environment \<Rightarrow> ball \<times> environment" where
  "new_Ball x0 y0 r0 c l e =
     (let (r1, e) = Math_random e;
          (r2, e) = Math_random e
      in (\<lparr>ball_x = x0, ball_y = y0, ball_r = r0, color = c, vx = Fin 0, vy = Fin 0,
           mass = r0, angle = Fin (r1 * pi * 2), angularVelocity = Fin 0,
           heavyPhase = Fin (r2 * pi * 2), isLumie = l, lockedUntil = 0, lastHit = 0\<rparr>, e))"

text \<open>\<open>Ball.update\<close>: one tick of a ball. The random sign is drawn only in the wobble branch.\<close>

definition update :: "ball \<Rightarrow> environment \<Rightarrow> ball \<times> environment" where
  "update b e =
     (let b = b\<lparr>ball_x := ball_x b + vx b\<rparr>;
          b = b\<lparr>ball_y := ball_y b + vy b\<rparr>;
          b = b\<lparr>angle := angle b + angularVelocity b\<rparr>;
          b = b\<lparr>vx := vx b * friction\<rparr>;
          b = b\<lparr>vy := vy b * friction\<rparr>;
          b = b\<lparr>angularVelocity := angularVelocity b * angularFriction\<rparr>;
          speed = Math_hypot (vx b) (vy b);
          (b, e) =
            (if isLumie b \<and> speed > Fin 0.1 then
               let currentHeavyAngle = angle b + heavyPhase b;
                   wobbleX = Math_cos currentHeavyAngle * wobbleStrength;
                   wobbleY = Math_sin currentHeavyAngle * wobbleStrength;
                   b = b\<lparr>vx := vx b + wobbleX\<rparr>;
                   b = b\<lparr>vy := vy b + wobbleY\<rparr>;
                   (rv, e) = Math_random e;
                   b = b\<lparr>angularVelocity := angularVelocity b
                          + (speed * Fin 0.05) * (if rv > 0.5 then Fin 1 else Fin (- 1))\<rparr>
               in (b, e)
             else (b, e))
      in if speed < stopThreshold
         then (b\<lparr>vx := Fin 0, vy := Fin 0, angularVelocity := Fin 0\<rparr>, e)
         else (b, e))"


section \<open>Vectors\<close>

text \<open>The helpers of \<open>Vec2\<close> that the game uses, on pairs \<open>(x, y)\<close>.\<close>

definition Vec2_sub :: "num \<times> num \<Rightarrow> num \<times> num \<Rightarrow> num \<times> num" where
  "Vec2_sub v1 v2 = (fst v1 - fst v2, snd v1 - snd v2)"

definition Vec2_len :: "num \<times> num \<Rightarrow> num" where
  "Vec2_len v = Math_hypot (fst v) (snd v)"

definition Vec2_norm :: "num \<times> num \<Rightarrow> num \<times> num" where
  "Vec2_norm v =
     (let l = Math_hypot (fst v) (snd v)
      in if l = Fin 0 then (Fin 0, Fin 0) else (fst v / l, snd v / l))"

definition Vec2_dist :: "num \<times> num \<Rightarrow> num \<times> num \<Rightarrow> num" where
  "Vec2_dist v1 v2 = Math_hypot (fst v1 - fst v2) (snd v1 - snd v2)"

section \<open>The game\<close>

datatype phase = Aiming | Rolling | Process_turn

text \<open>
  An entry of \<open>turnChanges\<close>. The source stores a reference to the ball; here it is the
  ball's index in \<open>allBalls\<close>.
\<close>

record change =
  ch_ball :: nat
  before :: color
  after :: color

text \<open>
  The fields of class \<open>Game\<close> that the game logic reads or writes. \<open>turnStartTime\<close> is
  undefined until the first shot. What the source writes to the page is kept as three
  fields: the two score texts, and \<open>modal\<close>, the colour announced as winner by the modal
  that \<open>gameOver\<close> fills and shows (\<open>None\<close> while the overlay has not been shown). The
  badge and the toast are not modelled.
\<close>

record game =
  width :: num
  height :: num
  lumies :: "ball list"
  playerBall :: ball
  currentPlayer :: nat
  playerColors :: "nat \<rightharpoonup> color"
  turnState :: phase
  dragStart :: "(num \<times> num) option"
  dragCurrent :: "(num \<times> num) option"
  turnChanges :: "change list"
  turnStartTime :: "int option"
  scoreGreen :: nat
  scoreBlue :: nat
  modal :: "color option"
  env :: environment

text \<open>
  \<open>allBalls\<close> is the array \<open>[...this.lumies, this.playerBall]\<close>. Its elements are the
  ball objects themselves, so a write through \<open>allBalls[k]\<close> is a write to the lumie or to
  the player ball at that index.
\<close>

definition allBalls :: "game \<Rightarrow> ball list" where
  "allBalls s = lumies s @ [playerBall s]"

definition getBall :: "game \<Rightarrow> nat \<Rightarrow> ball" where
  "getBall s k = allBalls s ! k"

definition setBall :: "game \<Rightarrow> nat \<Rightarrow> ball \<Rightarrow> game" where
  "setBall s k b =
     (if k < length (lumies s) then s\<lparr>lumies := (lumies s)[k := b]\<rparr>
      else if k = length (lumies s) then s\<lparr>playerBall := b\<rparr>
      else s)"

text \<open>
  \<open>gameOver\<close> fills the modal with the winner's colour and shows the overlay. It draws one
  random number for the picture and three for each of the 50 confetti. It writes no field
  of the game.
\<close>

definition gameOver :: "color \<Rightarrow> game \<Rightarrow> game" where
  "gameOver winnerColor s =
     s\<lparr>modal := Some winnerColor, env := (env s)\<lparr>rpos := rpos (env s) + 151\<rparr>\<rparr>"

definition updateScores :: "game \<Rightarrow> game" where
  "updateScores s =
     (let (g, b) = fold (\<lambda>l (g, b). (if color l = Green then g + 1 else g,
                                      if color l = Blue then b + 1 else b))
                     (lumies s) (0, 0);
          s = s\<lparr>scoreGreen := g, scoreBlue := b\<rparr>;
          s = (if g = 5 then gameOver Green s else s);
          s = (if b = 5 then gameOver Blue s else s)
      in s)"

text \<open>\<open>onHitLumie\<close>, for the ball at index \<open>k\<close> of \<open>allBalls\<close>.\<close>

definition onHitLumie :: "nat \<Rightarrow> game \<Rightarrow> game" where
  "onHitLumie k s =
     (let (t1, e) = Date_now (env s);
          s = s\<lparr>env := e\<rparr>;
          lumie = getBall s k
      in if t1 < lockedUntil lumie then s
         else
           let prevColor = color lumie;
               (lumie, s) =
                 (if color lumie = Red then
                    let (rv, e) = Math_random (env s);
                        s = s\<lparr>env := e\<rparr>;
                        pick = (if rv > 0.5 then Green else Blue);
                        lumie = lumie\<lparr>color := pick\<rparr>;
                        s = (if playerColors s 1 = None \<and> playerColors s 2 = None then
                               let s = s\<lparr>playerColors :=
                                         (playerColors s)(currentPlayer s \<mapsto> pick)\<rparr>;
                                   s = s\<lparr>playerColors :=
                                         (playerColors s)
                                           ((if currentPlayer s = 1 then 2 else 1) \<mapsto>
                                              (if pick = Green then Blue else Green))\<rparr>
                               in s
                             else s)
                    in (lumie, s)
                  else if color lumie = Green then (lumie\<lparr>color := Blue\<rparr>, s)
                  else if color lumie = Blue then (lumie\<lparr>color := Green\<rparr>, s)
                  else (lumie, s));
               (t2, e) = Date_now (env s);
               s = s\<lparr>env := e\<rparr>;
               lumie = lumie\<lparr>lockedUntil := t2 + cooldown\<rparr>;
               s = setBall s k lumie;
               s = s\<lparr>turnChanges := turnChanges s
                      @ [\<lparr>ch_ball = k, before = prevColor, after = color lumie\<rparr>]\<rparr>
           in updateScores s)"

text \<open>
  \<open>resolveCollision\<close>, for the balls at indices \<open>i\<close> and \<open>j\<close> of \<open>allBalls\<close>, two
  different objects.
\<close>

definition resolveCollision :: "nat \<Rightarrow> nat \<Rightarrow> game \<Rightarrow> game" where
  "resolveCollision i j s =
     (let b1 = getBall s i;
          b2 = getBall s j;
          dx = ball_x b2 - ball_x b1;
          dy = ball_y b2 - ball_y b1;
          dist = Math_hypot dx dy;
          minDist = ball_r b1 + ball_r b2
      in if dist < minDist then
           let overlap = minDist - dist;
               nx = dx / dist;
               ny = dy / dist;
               b1 = b1\<lparr>ball_x := ball_x b1 - nx * overlap * Fin 0.5\<rparr>;
               b1 = b1\<lparr>ball_y := ball_y b1 - ny * overlap * Fin 0.5\<rparr>;
               b2 = b2\<lparr>ball_x := ball_x b2 + nx * overlap * Fin 0.5\<rparr>;
               b2 = b2\<lparr>ball_y := ball_y b2 + ny * overlap * Fin 0.5\<rparr>;
               tx = - ny;
               ty = nx;
               dpTan1 = vx b1 * tx + vy b1 * ty;
               dpTan2 = vx b2 * tx + vy b2 * ty;
               dpNorm1 = vx b1 * nx + vy b1 * ny;
               dpNorm2 = vx b2 * nx + vy b2 * ny;
               m1 = mass b1;
               m2 = mass b2;
               v1n = (dpNorm1 * (m1 - m2) + Fin 2 * m2 * dpNorm2) / (m1 + m2);
               v2n = (dpNorm2 * (m2 - m1) + Fin 2 * m1 * dpNorm1) / (m1 + m2);
               b1 = b1\<lparr>vx := tx * dpTan1 + nx * v1n\<rparr>;
               b1 = b1\<lparr>vy := ty * dpTan1 + ny * v1n\<rparr>;
               b2 = b2\<lparr>vx := tx * dpTan2 + nx * v2n\<rparr>;
               b2 = b2\<lparr>vy := ty * dpTan2 + ny * v2n\<rparr>;
               s = setBall (setBall s i b1) j b2;
               impactPower = \<bar>dpNorm1 - dpNorm2\<bar>;
               s = (if impactPower > Fin 0.5 then
                      let s = (if isLumie b1 then onHitLumie i s else s);
                          s = (if isLumie b2 then onHitLumie j s else s)
                      in s
                    else s);
               (r1, e) = Math_random (env s);
               s = s\<lparr>env := e\<rparr>;
               s = setBall s i ((getBall s i)\<lparr>angularVelocity :=
                     angularVelocity (getBall s i) + Fin (r1 - 0.5)\<rparr>);
               (r2, e) = Math_random (env s);
               s = s\<lparr>env := e\<rparr>;
               s = setBall s j ((getBall s j)\<lparr>angularVelocity :=
                     angularVelocity (getBall s j) + Fin (r2 - 0.5)\<rparr>)
           in s
         else s)"

definition resetPlayerBall :: "game \<Rightarrow> game" where
  "resetPlayerBall s =
     (let y0 = (if currentPlayer s = 1 then height s - Fin 100 else Fin 100);
          (b, e) = new_Ball (width s / Fin 2) y0 ballRadius Gold False (env s)
      in s\<lparr>playerBall := b, env := e\<rparr>)"

definition endTurn :: "game \<Rightarrow> game" where
  "endTurn s =
     (let s = s\<lparr>turnState := Process_turn\<rparr>;
          myCol = playerColors s (currentPlayer s);
          switchTurn =
            (case myCol of
               Some c \<Rightarrow>
                 let opponentCol = (if c = Green then Blue else Green);
                     (gainedMy, gainedOpponent) =
                       fold (\<lambda>ch (gm, go). (if after ch = c then gm + 1 else gm,
                                              if after ch = opponentCol then go + 1 else go))
                         (turnChanges s) (0 :: nat, 0 :: nat)
                 in if gainedMy > 0 \<and> gainedOpponent = 0 then False else True
             | None \<Rightarrow> True);
          s = (if switchTurn
               then s\<lparr>currentPlayer := (if currentPlayer s = 1 then 2 else 1)\<rparr>
               else s);
          s = resetPlayerBall s
      in s\<lparr>turnState := Aiming\<rparr>)"

text \<open>The body of the loop over \<open>allBalls\<close> in \<open>updatePhysics\<close>, for the ball at index \<open>k\<close>.\<close>

definition stepBall :: "bool \<Rightarrow> nat \<Rightarrow> bool \<times> game \<Rightarrow> bool \<times> game" where
  "stepBall timeLimitReached k ms =
     (let (moving, s) = ms;
          (b, e) = update (getBall s k) (env s);
          s = s\<lparr>env := e\<rparr>;
          b = (if timeLimitReached
               then b\<lparr>vx := Fin 0, vy := Fin 0, angularVelocity := Fin 0\<rparr>
               else b);
          moving = (if \<bar>vx b\<bar> > Fin 0 \<or> \<bar>vy b\<bar> > Fin 0 then True else moving);
          b = (if ball_x b < ball_r b
               then b\<lparr>ball_x := ball_r b, vx := vx b * (- restitution)\<rparr> else b);
          b = (if ball_x b > width s - ball_r b
               then b\<lparr>ball_x := width s - ball_r b, vx := vx b * (- restitution)\<rparr> else b);
          b = (if ball_y b < ball_r b
               then b\<lparr>ball_y := ball_r b, vy := vy b * (- restitution)\<rparr> else b);
          b = (if ball_y b > height s - ball_r b
               then b\<lparr>ball_y := height s - ball_r b, vy := vy b * (- restitution)\<rparr> else b)
      in (moving, setBall s k b))"

text \<open>
  The two loops of \<open>updatePhysics\<close> over the \<open>n\<close> balls of \<open>allBalls\<close>: the loop that
  updates positions, which returns the flag \<open>moving\<close> with the state, and the loop over
  all pairs \<open>i < j\<close> that resolves collisions.
\<close>

definition updatePositions :: "bool \<Rightarrow> nat \<Rightarrow> game \<Rightarrow> bool \<times> game" where
  "updatePositions timeLimitReached n s = fold (stepBall timeLimitReached) [0..<n] (False, s)"

definition collisions :: "nat \<Rightarrow> game \<Rightarrow> game" where
  "collisions n s = fold (\<lambda>i. fold (\<lambda>j. resolveCollision i j) [i + 1..<n]) [0..<n] s"

definition updatePhysics :: "game \<Rightarrow> game" where
  "updatePhysics s =
     (let n = length (allBalls s);
          (now, e) = Date_now (env s);
          s = s\<lparr>env := e\<rparr>;
          elapsed = now - (case turnStartTime s of None \<Rightarrow> 0 | Some t \<Rightarrow> t);
          timeLimitReached = (elapsed > 3000);
          (moving, s) = updatePositions timeLimitReached n s;
          s = collisions n s
      in if \<not> moving then (if turnState s = Rolling then endTurn s else s) else s)"

subsection \<open>Input and the frame loop\<close>

text \<open>
  \<open>shoot\<close> is only called by the handler \<open>end\<close>, after it has checked that a drag is in
  progress; \<open>dragStart\<close> and \<open>dragCurrent\<close> are always set together, so the case of a
  missing \<open>dragCurrent\<close> does not arise and is left as no change.
\<close>

definition shoot :: "game \<Rightarrow> game" where
  "shoot s =
     (case (dragCurrent s, dragStart s) of
        (Some dc, Some ds) \<Rightarrow>
          let v = Vec2_sub dc ds;
              len = Vec2_len v
          in if len < Fin 5 then s
             else
               let power = Math_min (len * dragScale) maxPower;
                   dir = Vec2_norm v;
                   s = s\<lparr>playerBall := (playerBall s)\<lparr>vx := fst dir * power,
                          vy := snd dir * power, angularVelocity := power * Fin 0.1\<rparr>\<rparr>;
                   s = s\<lparr>turnState := Rolling, turnChanges := []\<rparr>;
                   (t, e) = Date_now (env s);
                   s = s\<lparr>turnStartTime := Some t, env := e\<rparr>;
                   (now, e) = Date_now (env s);
                   s = s\<lparr>env := e\<rparr>
               in s\<lparr>lumies := map (\<lambda>l. if lockedUntil l < now then l\<lparr>lockedUntil := 0\<rparr> else l)
                                  (lumies s)\<rparr>
      | _ \<Rightarrow> s)"

text \<open>The three pointer handlers of \<open>bindEvents\<close>, and the resize handler.\<close>

definition start :: "num \<times> num \<Rightarrow> game \<Rightarrow> game" where
  "start p s =
     (if turnState s \<noteq> Aiming then s
      else
        let allowedY = (if currentPlayer s = 1 then snd p > height s * Fin 0.75
                        else snd p < height s * Fin 0.25);
            distToBall = Vec2_dist p (ball_x (playerBall s), ball_y (playerBall s))
        in if allowedY \<or> distToBall < Fin 60
           then s\<lparr>dragStart := Some p, dragCurrent := Some p\<rparr>
           else s)"

definition move :: "num \<times> num \<Rightarrow> game \<Rightarrow> game" where
  "move p s = (if dragStart s = None then s else s\<lparr>dragCurrent := Some p\<rparr>)"

definition end_drag :: "game \<Rightarrow> game" where
  "end_drag s =
     (if dragStart s = None then s
      else (shoot s)\<lparr>dragStart := None, dragCurrent := None\<rparr>)"

definition resize :: "num \<Rightarrow> num \<Rightarrow> game \<Rightarrow> game" where
  "resize w h s = s\<lparr>width := w, height := h\<rparr>"

text \<open>
  One animation frame. Drawing changes nothing in the game; each ball drawn reads the
  clock once, for its lock indicator.
\<close>

definition draw :: "game \<Rightarrow> game" where
  "draw s = s\<lparr>env := (env s)\<lparr>cpos := cpos (env s) + length (allBalls s)\<rparr>\<rparr>"

definition loop :: "game \<Rightarrow> game" where
  "loop s = draw (if turnState s = Rolling then updatePhysics s else s)"

text \<open>
  The constructor, for a window of the given size: \<open>initBoard\<close> makes five red lumies in a
  centred row and the player ball of player 1, then the first frame is drawn.
\<close>

definition initBoard_lumies :: "num \<Rightarrow> num \<Rightarrow> environment \<Rightarrow> ball list \<times> environment" where
  "initBoard_lumies w h e =
     (let count = 5 :: nat;
          spacing = Math_min (w / Fin (real (count + 1))) lumieSpacing;
          startX = (w - spacing * Fin (real (count - 1))) / Fin 2;
          centerY = h / Fin 2
      in fold (\<lambda>i (ls, e).
                 let (b, e) = new_Ball (startX + Fin (real i) * spacing) centerY
                                lumieRadius Red True e
                 in (ls @ [b], e))
           [0..<count] ([], e))"

definition new_Game :: "num \<Rightarrow> num \<Rightarrow> environment \<Rightarrow> game" where
  "new_Game w h e =
     (let (ls, e) = initBoard_lumies w h e;
          (pb, e) = new_Ball (w / Fin 2) (h - Fin 100) ballRadius Gold False e
      in loop \<lparr>width = w, height = h, lumies = ls, playerBall = pb, currentPlayer = 1,
               playerColors = Map.empty, turnState = Aiming, dragStart = None,
               dragCurrent = None, turnChanges = [], turnStartTime = None,
               scoreGreen = 0, scoreBlue = 0, modal = None, env = e\<rparr>)"

text \<open>
  The runs of the game: from a state, the page delivers a pointer event, a resize or an
  animation frame.
\<close>

inductive step :: "game \<Rightarrow> game \<Rightarrow> bool" where
  step_start: "step s (start p s)"
| step_move: "step s (move p s)"
| step_end: "step s (end_drag s)"
| step_resize: "step s (resize w h s)"
| step_loop: "step s (loop s)"

inductive reachable :: "game \<Rightarrow> bool" where
  reach_init: "reachable (new_Game (Fin w) (Fin h) e)"
| reach_step: "reachable s \<Longrightarrow> step s s' \<Longrightarrow> reachable s'"

section \<open>Notions used in the properties\<close>

text \<open>The linear speed of a ball, and its speed once friction has been applied.\<close>

definition speed :: "ball \<Rightarrow> num" where
  "speed b = Math_hypot (vx b) (vy b)"

definition frictionSpeed :: "ball \<Rightarrow> num" where
  "frictionSpeed b = Math_hypot (vx b * friction) (vy b * friction)"

text \<open>The score of a colour: the number of lumies of that colour.\<close>

definition score :: "color \<Rightarrow> game \<Rightarrow> nat" where
  "score c s = length (filter (\<lambda>l. color l = c) (lumies s))"

text \<open>The other player, and the other of the two playing colours.\<close>

definition other :: "nat \<Rightarrow> nat" where
  "other p = (if p = 1 then 2 else 1)"

definition opposite :: "color \<Rightarrow> color" where
  "opposite c = (if c = Green then Blue else Green)"

text \<open>The clock reading and the random number that the next call will return.\<close>

definition nextTime :: "game \<Rightarrow> int" where
  "nextTime s = clk (env s) (cpos (env s))"

definition nextRandom :: "game \<Rightarrow> real" where
  "nextRandom s = rnd (env s) (rpos (env s))"

text \<open>
  What holds of the players in every state of a match: the current player is 1 or 2;
  either no player has a colour, and then every lumie is still red, or the two players
  have green and blue, one each.
\<close>

definition player_ok :: "game \<Rightarrow> bool" where
  "player_ok s \<longleftrightarrow> currentPlayer s = 1 \<or> currentPlayer s = 2"

definition unassigned :: "game \<Rightarrow> bool" where
  "unassigned s \<longleftrightarrow> playerColors s 1 = None \<and> playerColors s 2 = None"

definition colours_ok :: "game \<Rightarrow> bool" where
  "colours_ok s \<longleftrightarrow>
     (unassigned s \<and> list_all (\<lambda>l. color l = Red) (lumies s))
     \<or> (playerColors s 1 = Some Green \<and> playerColors s 2 = Some Blue)
     \<or> (playerColors s 1 = Some Blue \<and> playerColors s 2 = Some Green)"

subsection \<open>Example states\<close>

text \<open>
  A board 480 wide and 600 high with the five lumies and the player ball at rest in one
  row, a clock that always reads 1000 and a random source that always returns 3/4.
\<close>

definition ex_env :: environment where
  "ex_env = \<lparr>rnd = (\<lambda>_. 3 / 4), rpos = 0, clk = (\<lambda>_. 1000), cpos = 0\<rparr>"

definition ex_ball :: "real \<Rightarrow> real \<Rightarrow> color \<Rightarrow> bool \<Rightarrow> ball" where
  "ex_ball r0 x0 c l =
     \<lparr>ball_x = Fin x0, ball_y = Fin 300, ball_r = Fin r0, color = c, vx = Fin 0, vy = Fin 0,
      mass = Fin r0, angle = Fin 0, angularVelocity = Fin 0, heavyPhase = Fin 0,
      isLumie = l, lockedUntil = 0, lastHit = 0\<rparr>"

definition ex_game :: game where
  "ex_game =
     \<lparr>width = Fin 480, height = Fin 600,
      lumies = [ex_ball 20 100 Red True, ex_ball 20 170 Red True, ex_ball 20 240 Red True,
                ex_ball 20 310 Red True, ex_ball 20 380 Red True],
      playerBall = ex_ball 22 450 Gold False, currentPlayer = 1,
      playerColors = Map.empty, turnState = Rolling, dragStart = None, dragCurrent = None,
      turnChanges = [], turnStartTime = Some 900, scoreGreen = 0, scoreBlue = 0,
      modal = None, env = ex_env\<rparr>"

text \<open>The same board with the first lumie green and locked until 4900.\<close>

definition ex_locked :: game where
  "ex_locked = setBall ex_game 0 ((ex_ball 20 100 Green True)\<lparr>lockedUntil := 4900\<rparr>)"

text \<open>
  The colour that \<open>onHitLumie\<close> gives to a lumie of colour \<open>c\<close> when the random number
  drawn is \<open>rv\<close>.
\<close>

definition hitColor :: "real \<Rightarrow> color \<Rightarrow> color" where
  "hitColor rv c =
     (if c = Red then (if rv > 0.5 then Green else Blue)
      else if c = Green then Blue
      else if c = Blue then Green
      else c)"

text \<open>The number of entries of the change log of the roll whose new colour is \<open>c\<close>.\<close>

definition countAfter :: "color \<Rightarrow> game \<Rightarrow> nat" where
  "countAfter c s = length (filter (\<lambda>ch. after ch = c) (turnChanges s))"

text \<open>
  \<open>later s s'\<close>: the state \<open>s'\<close> comes after the state \<open>s\<close> by any number of calls of the
  methods of the game and of its event handlers.
\<close>

inductive later :: "game \<Rightarrow> game \<Rightarrow> bool" where
  later_refl: "later s s"
| later_onHitLumie: "later s t \<Longrightarrow> later s (onHitLumie k t)"
| later_updateScores: "later s t \<Longrightarrow> later s (updateScores t)"
| later_gameOver: "later s t \<Longrightarrow> later s (gameOver c t)"
| later_resolveCollision: "later s t \<Longrightarrow> later s (resolveCollision i j t)"
| later_updatePhysics: "later s t \<Longrightarrow> later s (updatePhysics t)"
| later_endTurn: "later s t \<Longrightarrow> later s (endTurn t)"
| later_resetPlayerBall: "later s t \<Longrightarrow> later s (resetPlayerBall t)"
| later_shoot: "later s t \<Longrightarrow> later s (shoot t)"
| later_start: "later s t \<Longrightarrow> later s (start p t)"
| later_move: "later s t \<Longrightarrow> later s (move p t)"
| later_end_drag: "later s t \<Longrightarrow> later s (end_drag t)"
| later_resize: "later s t \<Longrightarrow> later s (resize w h t)"
| later_draw: "later s t \<Longrightarrow> later s (draw t)"
| later_loop: "later s t \<Longrightarrow> later s (loop t)"

text \<open>The example board once player 1 has green and player 2 blue.\<close>

definition ex_assigned :: game where
  "ex_assigned = ex_game\<lparr>playerColors := [1 \<mapsto> Green, 2 \<mapsto> Blue]\<rparr>"

text \<open>The end of a roll of player 1 (green) in which one lumie turned green.\<close>

definition ex_replay :: game where
  "ex_replay = ex_assigned\<lparr>turnChanges := [\<lparr>ch_ball = 0, before = Red, after = Green\<rparr>]\<rparr>"

text \<open>
  \<open>holds pc s\<close>: the players' colours in \<open>s\<close> are \<open>pc\<close>, and at least one player has a
  colour.
\<close>

definition holds :: "(nat \<rightharpoonup> color) \<Rightarrow> game \<Rightarrow> bool" where
  "holds pc s \<longleftrightarrow> playerColors s = pc \<and> \<not> (pc 1 = None \<and> pc 2 = None)"

text \<open>
  The example board during a roll of player 1 (green), with four lumies blue and the last
  one green.
\<close>

definition ex_last :: game where
  "ex_last =
     ex_assigned\<lparr>lumies := [ex_ball 20 100 Blue True, ex_ball 20 170 Blue True,
                             ex_ball 20 240 Blue True, ex_ball 20 310 Blue True,
                             ex_ball 20 380 Green True]\<rparr>"

text \<open>A lumie rolling to the right at speed 1, and the player ball doing the same.\<close>

definition ex_rolling_lumie :: ball where
  "ex_rolling_lumie = (ex_ball 20 100 Red True)\<lparr>vx := Fin 1\<rparr>"

definition ex_rolling_player :: ball where
  "ex_rolling_player = (ex_ball 22 450 Gold False)\<lparr>vx := Fin 1\<rparr>"

text \<open>The player ball creeping at speed 1/20.\<close>

definition ex_creeping_player :: ball where
  "ex_creeping_player = (ex_ball 22 450 Gold False)\<lparr>vx := Fin (1 / 20)\<rparr>"

text \<open>
  The quantities of a contact between two balls, as \<open>resolveCollision\<close> computes them from
  the positions before the call: the distance of the centres, the overlap, the contact
  normal \<open>(nx, ny)\<close>, and the components of a ball's velocity along the normal and along
  the tangent \<open>(- ny, nx)\<close>.
\<close>

definition centerDistance :: "ball \<Rightarrow> ball \<Rightarrow> num" where
  "centerDistance b1 b2 = Math_hypot (ball_x b2 - ball_x b1) (ball_y b2 - ball_y b1)"

definition overlapOf :: "ball \<Rightarrow> ball \<Rightarrow> num" where
  "overlapOf b1 b2 = (ball_r b1 + ball_r b2) - centerDistance b1 b2"

definition contactNormal :: "ball \<Rightarrow> ball \<Rightarrow> num \<times> num" where
  "contactNormal b1 b2 =
     ((ball_x b2 - ball_x b1) / centerDistance b1 b2,
      (ball_y b2 - ball_y b1) / centerDistance b1 b2)"

definition normalVelocity :: "num \<times> num \<Rightarrow> ball \<Rightarrow> num" where
  "normalVelocity n b = vx b * fst n + vy b * snd n"

definition tangentVelocity :: "num \<times> num \<Rightarrow> ball \<Rightarrow> num" where
  "tangentVelocity n b = vx b * (- snd n) + vy b * fst n"

text \<open>The example board with the second lumie moved onto the first one.\<close>

definition ex_coincident :: game where
  "ex_coincident = setBall ex_game 1 (ex_ball 20 100 Red True)"

text \<open>
  The example board with the first two lumies overlapping and approaching each other, and
  the same board where they are at rest.
\<close>

definition ex_overlap :: game where
  "ex_overlap =
     setBall (setBall ex_game 0 ((ex_ball 20 100 Red True)\<lparr>vx := Fin 3, vy := Fin 1\<rparr>))
       1 ((ex_ball 20 130 Red True)\<lparr>vx := Fin (- 2)\<rparr>)"

text \<open>
  A ball stays inside the board in a tick when its position after the move by its
  velocity triggers none of the four wall checks of \<open>updatePhysics\<close>.
\<close>

definition staysInside :: "game \<Rightarrow> ball \<Rightarrow> bool" where
  "staysInside s b \<longleftrightarrow>
     \<not> ball_x b + vx b < ball_r b \<and> \<not> ball_x b + vx b > width s - ball_r b
     \<and> \<not> ball_y b + vy b < ball_r b \<and> \<not> ball_y b + vy b > height s - ball_r b"

text \<open>The environment of the examples with a clock that always reads 5000.\<close>

definition ex_late_env :: environment where
  "ex_late_env = ex_env\<lparr>clk := (\<lambda>_. 5000)\<rparr>"

text \<open>
  The example board 4100 ms into a roll, with the first lumie still rolling at speed 5
  towards the second one, which is 41 away.
\<close>

definition ex_timeout :: game where
  "ex_timeout =
     ex_game\<lparr>lumies := [(ex_ball 20 100 Red True)\<lparr>vx := Fin 5\<rparr>, ex_ball 20 141 Red True,
                          ex_ball 20 240 Red True, ex_ball 20 310 Red True,
                          ex_ball 20 380 Red True],
              env := ex_late_env\<rparr>"

text \<open>The board \<open>ex_last\<close> 4100 ms into the roll.\<close>

definition ex_last_late :: game where
  "ex_last_late = ex_last\<lparr>env := ex_late_env\<rparr>"

text \<open>A lumie rolling to the right at speed 5.\<close>

definition ex_fast_lumie :: ball where
  "ex_fast_lumie = (ex_ball 20 100 Red True)\<lparr>vx := Fin 5\<rparr>"

text \<open>A velocity component that is zero or \<open>NaN\<close>, and a board on which every ball has only such.\<close>

definition zeroOrNaN :: "num \<Rightarrow> bool" where
  "zeroOrNaN v \<longleftrightarrow> v = Fin 0 \<or> v = NaN"

definition still :: "game \<Rightarrow> bool" where
  "still s \<longleftrightarrow>
     (\<forall>k\<le>length (lumies s). zeroOrNaN (vx (getBall s k)) \<and> zeroOrNaN (vy (getBall s k)))"

text \<open>
  The example board 4100 ms into a roll, with the first lumie still rolling at speed 5
  and no other ball within reach.
\<close>

definition ex_coasting :: game where
  "ex_coasting =
     ex_game\<lparr>lumies := [(ex_ball 20 100 Red True)\<lparr>vx := Fin 5\<rparr>, ex_ball 20 170 Red True,
                          ex_ball 20 240 Red True, ex_ball 20 310 Red True,
                          ex_ball 20 380 Red True],
              env := ex_late_env\<rparr>"

section \<open>Basic facts\<close>

subsection \<open>Reading and writing a ball\<close>

lemma getBall_upd [simp]:
  "getBall (s\<lparr>env := e\<rparr>) k = getBall s k"
  "getBall (s\<lparr>turnChanges := tc\<rparr>) k = getBall s k"
  "getBall (s\<lparr>playerColors := pc\<rparr>) k = getBall s k"
  "getBall (s\<lparr>currentPlayer := cp\<rparr>) k = getBall s k"
  "getBall (s\<lparr>turnState := ts\<rparr>) k = getBall s k"
  "getBall (s\<lparr>turnStartTime := tt\<rparr>) k = getBall s k"
  "getBall (s\<lparr>modal := md\<rparr>) k = getBall s k"
  "getBall (s\<lparr>scoreGreen := sg\<rparr>) k = getBall s k"
  "getBall (s\<lparr>scoreBlue := sb\<rparr>) k = getBall s k"
  by (simp_all add: getBall_def allBalls_def)

lemma getBall_setBall_same:
  "k \<le> length (lumies s) \<Longrightarrow> getBall (setBall s k b) k = b"
  by (auto simp: getBall_def setBall_def allBalls_def nth_append)

lemma getBall_setBall_other:
  "m \<noteq> k \<Longrightarrow> getBall (setBall s k b) m = getBall s m"
  by (auto simp: getBall_def setBall_def allBalls_def nth_append)

lemma setBall_frame [simp]:
  "turnChanges (setBall s k b) = turnChanges s"
  "playerColors (setBall s k b) = playerColors s"
  "currentPlayer (setBall s k b) = currentPlayer s"
  "turnState (setBall s k b) = turnState s"
  "turnStartTime (setBall s k b) = turnStartTime s"
  "width (setBall s k b) = width s"
  "height (setBall s k b) = height s"
  "env (setBall s k b) = env s"
  "modal (setBall s k b) = modal s"
  "dragStart (setBall s k b) = dragStart s"
  "dragCurrent (setBall s k b) = dragCurrent s"
  "length (lumies (setBall s k b)) = length (lumies s)"
  by (simp_all add: setBall_def)

subsection \<open>The example states\<close>

lemma ex_game_simps:
  "lumies ex_game = [ex_ball 20 100 Red True, ex_ball 20 170 Red True, ex_ball 20 240 Red True,
                ex_ball 20 310 Red True, ex_ball 20 380 Red True]"
  "playerBall ex_game = ex_ball 22 450 Gold False"
  "env ex_game = ex_env" "turnChanges ex_game = []" "playerColors ex_game = Map.empty"
  "currentPlayer ex_game = 1" "turnState ex_game = Rolling" "turnStartTime ex_game = Some 900"
  "width ex_game = Fin 480" "height ex_game = Fin 600" "modal ex_game = None"
  by (simp_all add: ex_game_def)

lemma ex_env_simps:
  "rnd ex_env n = 3 / 4" "clk ex_env n = 1000" "rpos ex_env = 0" "cpos ex_env = 0"
  by (simp_all add: ex_env_def)

lemma ex_ball_simps:
  "ball_x (ex_ball r0 x0 c l) = Fin x0" "ball_y (ex_ball r0 x0 c l) = Fin 300"
  "ball_r (ex_ball r0 x0 c l) = Fin r0" "color (ex_ball r0 x0 c l) = c"
  "vx (ex_ball r0 x0 c l) = Fin 0" "vy (ex_ball r0 x0 c l) = Fin 0"
  "mass (ex_ball r0 x0 c l) = Fin r0" "angle (ex_ball r0 x0 c l) = Fin 0"
  "angularVelocity (ex_ball r0 x0 c l) = Fin 0" "heavyPhase (ex_ball r0 x0 c l) = Fin 0"
  "isLumie (ex_ball r0 x0 c l) = l" "lockedUntil (ex_ball r0 x0 c l) = 0"
  by (simp_all add: ex_ball_def)

section \<open>Conversion of a lumie\<close>

lemma updateScores_frame [simp]:
  "lumies (updateScores s) = lumies s"
  "playerBall (updateScores s) = playerBall s"
  "turnChanges (updateScores s) = turnChanges s"
  "playerColors (updateScores s) = playerColors s"
  "currentPlayer (updateScores s) = currentPlayer s"
  "turnState (updateScores s) = turnState s"
  "turnStartTime (updateScores s) = turnStartTime s"
  "width (updateScores s) = width s"
  "height (updateScores s) = height s"
  "dragStart (updateScores s) = dragStart s"
  "dragCurrent (updateScores s) = dragCurrent s"
  by (simp_all add: updateScores_def gameOver_def Let_def split_def)

lemma getBall_updateScores [simp]: "getBall (updateScores s) k = getBall s k"
  by (simp add: getBall_def allBalls_def)

lemma onHitLumie_locked_eq:
  "nextTime s < lockedUntil (getBall s k) \<Longrightarrow>
   onHitLumie k s = s\<lparr>env := (env s)\<lparr>cpos := cpos (env s) + 1\<rparr>\<rparr>"
  by (simp add: onHitLumie_def Date_now_def nextTime_def)

lemma onHitLumie_unlocked_ball:
  assumes "\<not> nextTime s < lockedUntil (getBall s k)" "k \<le> length (lumies s)"
  shows "getBall (onHitLumie k s) k =
         (getBall s k)\<lparr>color := hitColor (nextRandom s) (color (getBall s k)),
                        lockedUntil := clk (env s) (cpos (env s) + 1) + cooldown\<rparr>"
  using assms
  by (simp add: onHitLumie_def Date_now_def Math_random_def nextTime_def nextRandom_def Let_def
      split_def hitColor_def getBall_setBall_same)

lemma onHitLumie_unlocked_changes:
  assumes "\<not> nextTime s < lockedUntil (getBall s k)"
  shows "turnChanges (onHitLumie k s) = turnChanges s @
           [\<lparr>ch_ball = k, before = color (getBall s k),
             after = hitColor (nextRandom s) (color (getBall s k))\<rparr>]"
  using assms
  by (simp add: onHitLumie_def Date_now_def Math_random_def nextTime_def nextRandom_def Let_def
      split_def hitColor_def)

text \<open>
  Claim C9. When the lock of a target has not expired, that is when the clock read by the
  handler is before the target's \<open>lockedUntil\<close>, a call of the impact handler
  \<open>onHitLumie\<close> leaves the target's colour, its lock expiry and the change log of the roll
  as they were; no ball changes at all. The handler is the only place where an impact
  converts a target, whatever the intensity that led to the call.
\<close>

theorem onHitLumie_locked:
  assumes "nextTime s < lockedUntil (getBall s k)"
  shows "color (getBall (onHitLumie k s) k) = color (getBall s k)
       \<and> lockedUntil (getBall (onHitLumie k s) k) = lockedUntil (getBall s k)
       \<and> turnChanges (onHitLumie k s) = turnChanges s
       \<and> allBalls (onHitLumie k s) = allBalls s"
  using assms by (simp add: onHitLumie_locked_eq allBalls_def)

theorem onHitLumie_locked_witness:
  "nextTime ex_locked < lockedUntil (getBall ex_locked 0)
   \<and> color (getBall (onHitLumie 0 ex_locked) 0) = Green
   \<and> lockedUntil (getBall (onHitLumie 0 ex_locked) 0) = 4900
   \<and> turnChanges (onHitLumie 0 ex_locked) = []"
  using onHitLumie_locked [of ex_locked 0]
  by (simp add: ex_locked_def nextTime_def setBall_def getBall_def allBalls_def
      ex_game_simps ex_env_simps ex_ball_simps)

text \<open>
  Claim C7. When the lock of a target has expired, a call of \<open>onHitLumie\<close> converts it: a
  red (neutral) target becomes green when the random number drawn exceeds 1/2 and blue
  otherwise, so each colour is taken on one half of the unit interval from which the
  number is drawn uniformly; a green target becomes blue and a blue one green. In each
  case the target's lock is set to the clock read at that moment (the second reading of
  the call) plus the cooldown of 4000 ms, and the record of the target, its colour before
  and its colour after is appended to the change log of the roll.
\<close>

theorem onHitLumie_converts:
  assumes "\<not> nextTime s < lockedUntil (getBall s k)" and "k < length (lumies s)"
  shows "(color (getBall s k) = Red \<longrightarrow>
            color (getBall (onHitLumie k s) k) = (if 1 / 2 < nextRandom s then Green else Blue))
       \<and> (color (getBall s k) = Green \<longrightarrow> color (getBall (onHitLumie k s) k) = Blue)
       \<and> (color (getBall s k) = Blue \<longrightarrow> color (getBall (onHitLumie k s) k) = Green)
       \<and> lockedUntil (getBall (onHitLumie k s) k) = clk (env s) (cpos (env s) + 1) + 4000
       \<and> turnChanges (onHitLumie k s) = turnChanges s @
           [\<lparr>ch_ball = k, before = color (getBall s k),
             after = color (getBall (onHitLumie k s) k)\<rparr>]"
  using assms
  by (simp add: onHitLumie_unlocked_ball onHitLumie_unlocked_changes hitColor_def cooldown_def)

theorem onHitLumie_converts_witness:
  "\<not> nextTime ex_game < lockedUntil (getBall ex_game 2) \<and> 2 < length (lumies ex_game)
   \<and> color (getBall ex_game 2) = Red
   \<and> color (getBall (onHitLumie 2 ex_game) 2) = Green
   \<and> lockedUntil (getBall (onHitLumie 2 ex_game) 2) = 5000
   \<and> turnChanges (onHitLumie 2 ex_game) = [\<lparr>ch_ball = 2, before = Red, after = Green\<rparr>]"
  using onHitLumie_converts [of ex_game 2]
  by (simp add: nextTime_def nextRandom_def getBall_def allBalls_def
      ex_game_simps ex_env_simps ex_ball_simps)

subsection \<open>What a conversion leaves unchanged\<close>

lemma onHitLumie_frame [simp]:
  "turnState (onHitLumie k s) = turnState s"
  "currentPlayer (onHitLumie k s) = currentPlayer s"
  "turnStartTime (onHitLumie k s) = turnStartTime s"
  "width (onHitLumie k s) = width s"
  "height (onHitLumie k s) = height s"
  "dragStart (onHitLumie k s) = dragStart s"
  "dragCurrent (onHitLumie k s) = dragCurrent s"
  "length (lumies (onHitLumie k s)) = length (lumies s)"
  by (simp_all add: onHitLumie_def Date_now_def Math_random_def Let_def split_def)

lemma onHitLumie_playerColors:
  "\<not> nextTime s < lockedUntil (getBall s k) \<Longrightarrow>
   playerColors (onHitLumie k s) =
     (if color (getBall s k) = Red \<and> unassigned s
      then (playerColors s)(currentPlayer s \<mapsto> hitColor (nextRandom s) Red,
                            other (currentPlayer s) \<mapsto> opposite (hitColor (nextRandom s) Red))
      else playerColors s)"
  by (simp add: onHitLumie_def Date_now_def Math_random_def Let_def split_def nextTime_def
      nextRandom_def unassigned_def hitColor_def other_def opposite_def)

lemma onHitLumie_keeps_colours:
  "\<not> unassigned s \<Longrightarrow> playerColors (onHitLumie k s) = playerColors s"
  by (cases "nextTime s < lockedUntil (getBall s k)")
     (simp_all add: onHitLumie_locked_eq onHitLumie_playerColors)

subsection \<open>Scores\<close>

lemma fold_scores:
  "fold (\<lambda>l (g, b). (if color l = Green then g + 1 else g, if color l = Blue then b + 1 else b))
     ls (g0, b0)
   = (g0 + length (filter (\<lambda>l. color l = Green) ls),
      b0 + length (filter (\<lambda>l. color l = Blue) ls))"
  by (induction ls arbitrary: g0 b0) auto

lemma score_updateScores [simp]: "score c (updateScores s) = score c s"
  by (simp add: score_def)

lemma scores_exclusive:
  assumes "length (lumies s) = 5" "score Blue s = 5"
  shows "score Green s \<noteq> 5"
proof -
  have "length (filter (\<lambda>l. color l = Green) (lumies s))
        \<le> length (filter (\<lambda>l. \<not> color l = Blue) (lumies s))"
  proof -
    have "filter (\<lambda>l. color l = Green) (lumies s)
          = filter (\<lambda>l. color l = Green) (filter (\<lambda>l. \<not> color l = Blue) (lumies s))"
      by (simp add: conj_commute) (rule filter_cong, auto)
    then show ?thesis by (metis length_filter_le)
  qed
  moreover have "length (filter (\<lambda>l. color l = Blue) (lumies s))
        + length (filter (\<lambda>l. \<not> color l = Blue) (lumies s)) = length (lumies s)"
    by (rule sum_length_filter_compl)
  ultimately show ?thesis using assms by (simp add: score_def)
qed

lemma modal_updateScores:
  "modal (updateScores s) =
     (if score Blue s = 5 then Some Blue else if score Green s = 5 then Some Green else modal s)"
  by (simp add: updateScores_def fold_scores score_def gameOver_def Let_def)

lemma onHitLumie_modal:
  assumes "\<not> nextTime s < lockedUntil (getBall s k)"
  shows "modal (onHitLumie k s) =
     (if score Blue (onHitLumie k s) = 5 then Some Blue
      else if score Green (onHitLumie k s) = 5 then Some Green else modal s)"
proof -
  obtain s0 where s0: "onHitLumie k s = updateScores s0" "modal s0 = modal s"
    using assms
    by (simp add: onHitLumie_def Date_now_def Math_random_def Let_def split_def nextTime_def)
  show ?thesis by (simp add: s0 modal_updateScores)
qed

subsection \<open>The end of a roll\<close>

lemma fold_gained:
  "fold (\<lambda>ch (gm, go). (if after ch = c then gm + 1 else gm, if after ch = d then go + 1 else go))
     cs (g0 :: nat, l0 :: nat)
   = (g0 + length (filter (\<lambda>ch. after ch = c) cs), l0 + length (filter (\<lambda>ch. after ch = d) cs))"
  by (induction cs arbitrary: g0 l0) auto

lemma resetPlayerBall_frame [simp]:
  "currentPlayer (resetPlayerBall s) = currentPlayer s"
  "playerColors (resetPlayerBall s) = playerColors s"
  "turnState (resetPlayerBall s) = turnState s"
  "lumies (resetPlayerBall s) = lumies s"
  "turnChanges (resetPlayerBall s) = turnChanges s"
  "modal (resetPlayerBall s) = modal s"
  by (simp_all add: resetPlayerBall_def new_Ball_def Math_random_def Let_def split_def)

lemma endTurn_currentPlayer:
  "currentPlayer (endTurn s) =
     (case playerColors s (currentPlayer s) of
        None \<Rightarrow> other (currentPlayer s)
      | Some c \<Rightarrow> if 0 < countAfter c s \<and> countAfter (opposite c) s = 0
                  then currentPlayer s else other (currentPlayer s))"
  by (simp add: endTurn_def fold_gained countAfter_def other_def opposite_def Let_def
      split: option.splits)

lemma endTurn_frame [simp]:
  "playerColors (endTurn s) = playerColors s"
  "turnState (endTurn s) = Aiming"
  "lumies (endTurn s) = lumies s"
  "modal (endTurn s) = modal s"
  by (simp_all add: endTurn_def Let_def split_def split: option.splits)

lemma other_neq [simp]: "other p \<noteq> p" "p \<noteq> other p"
  by (simp_all add: other_def)

lemma opponent_colour:
  assumes "player_ok s" "colours_ok s" "playerColors s (currentPlayer s) = Some c"
  shows "playerColors s (other (currentPlayer s)) = Some (opposite c)"
  using assms
  by (auto simp: player_ok_def colours_ok_def unassigned_def other_def opposite_def)

text \<open>
  Claim C6. At the end of a roll, in a state of a match (the current player is 1 or 2 and
  the colours are either both unassigned or green and blue, one each): when the acting
  player has no colour, the turn passes to the other player; when the acting player has
  colour \<open>c\<close> and the opponent colour \<open>d\<close>, the acting player keeps the turn exactly when
  the change log has at least one entry whose new colour is \<open>c\<close> and none whose new colour
  is \<open>d\<close>, and the turn passes to the other player in every other case.
\<close>

theorem endTurn_replay:
  assumes "player_ok s" and "colours_ok s"
  shows "(playerColors s (currentPlayer s) = None \<longrightarrow>
            currentPlayer (endTurn s) = other (currentPlayer s))
       \<and> (\<forall>c d. playerColors s (currentPlayer s) = Some c
                \<and> playerColors s (other (currentPlayer s)) = Some d \<longrightarrow>
              (currentPlayer (endTurn s) = currentPlayer s
                 \<longleftrightarrow> 0 < countAfter c s \<and> countAfter d s = 0)
              \<and> (\<not> (0 < countAfter c s \<and> countAfter d s = 0) \<longrightarrow>
                   currentPlayer (endTurn s) = other (currentPlayer s)))"
proof (intro conjI allI impI)
  assume "playerColors s (currentPlayer s) = None"
  then show "currentPlayer (endTurn s) = other (currentPlayer s)"
    by (simp add: endTurn_currentPlayer)
next
  fix c d
  assume a: "playerColors s (currentPlayer s) = Some c
             \<and> playerColors s (other (currentPlayer s)) = Some d"
  then have d: "d = opposite c"
    using opponent_colour [OF assms, of c] by simp
  show "currentPlayer (endTurn s) = currentPlayer s
          \<longleftrightarrow> 0 < countAfter c s \<and> countAfter d s = 0"
    using a by (simp add: endTurn_currentPlayer d)
  assume "\<not> (0 < countAfter c s \<and> countAfter d s = 0)"
  then show "currentPlayer (endTurn s) = other (currentPlayer s)"
    using a by (simp add: endTurn_currentPlayer d)
qed

lemma ex_replay_simps:
  "currentPlayer ex_replay = 1" "playerColors ex_replay = [1 \<mapsto> Green, 2 \<mapsto> Blue]"
  "turnChanges ex_replay = [\<lparr>ch_ball = 0, before = Red, after = Green\<rparr>]"
  by (simp_all add: ex_replay_def ex_assigned_def ex_game_simps)

theorem endTurn_replay_witness:
  "player_ok ex_replay \<and> colours_ok ex_replay
   \<and> playerColors ex_replay (currentPlayer ex_replay) = Some Green
   \<and> playerColors ex_replay (other (currentPlayer ex_replay)) = Some Blue
   \<and> 0 < countAfter Green ex_replay \<and> countAfter Blue ex_replay = 0
   \<and> currentPlayer (endTurn ex_replay) = currentPlayer ex_replay"
proof -
  have ok: "player_ok ex_replay" "colours_ok ex_replay"
    by (simp_all add: player_ok_def colours_ok_def ex_replay_simps)
  have pc: "playerColors ex_replay (currentPlayer ex_replay) = Some Green
            \<and> playerColors ex_replay (other (currentPlayer ex_replay)) = Some Blue"
    by (simp add: ex_replay_simps other_def)
  have cnt: "0 < countAfter Green ex_replay \<and> countAfter Blue ex_replay = 0"
    by (simp add: countAfter_def ex_replay_simps)
  from endTurn_replay [OF ok] pc cnt
  have "currentPlayer (endTurn ex_replay) = currentPlayer ex_replay" by blast
  with ok pc cnt show ?thesis by blast
qed

subsection \<open>Colours once assigned\<close>

lemma fold_preserves:
  assumes "\<And>x s. P s \<Longrightarrow> P (f x s)" and "P s"
  shows "P (fold f xs s)"
  using assms(2) by (induction xs arbitrary: s) (simp_all add: assms(1))

lemma holds_onHitLumie: "holds pc s \<Longrightarrow> holds pc (onHitLumie k s)"
  by (simp add: holds_def onHitLumie_keeps_colours unassigned_def)

lemma holds_upd [simp]:
  "holds pc (s\<lparr>env := e\<rparr>) = holds pc s"
  "holds pc (setBall s k b) = holds pc s"
  "holds pc (s\<lparr>turnState := ts\<rparr>) = holds pc s"
  "holds pc (s\<lparr>currentPlayer := cp\<rparr>) = holds pc s"
  "holds pc (s\<lparr>lumies := ls\<rparr>) = holds pc s"
  "holds pc (s\<lparr>playerBall := pb\<rparr>) = holds pc s"
  "holds pc (s\<lparr>turnChanges := tc\<rparr>) = holds pc s"
  "holds pc (s\<lparr>turnStartTime := tt\<rparr>) = holds pc s"
  "holds pc (s\<lparr>dragStart := d1\<rparr>) = holds pc s"
  "holds pc (s\<lparr>dragCurrent := d2\<rparr>) = holds pc s"
  "holds pc (s\<lparr>width := w\<rparr>) = holds pc s"
  "holds pc (s\<lparr>height := h\<rparr>) = holds pc s"
  "holds pc (s\<lparr>modal := m\<rparr>) = holds pc s"
  "holds pc (updateScores s) = holds pc s"
  "holds pc (resetPlayerBall s) = holds pc s"
  "holds pc (endTurn s) = holds pc s"
  by (simp_all add: holds_def)

lemma holds_gameOver [simp]: "holds pc (gameOver c s) = holds pc s"
  by (simp add: gameOver_def)

lemma holds_resolveCollision: "holds pc s \<Longrightarrow> holds pc (resolveCollision i j s)"
  by (simp add: resolveCollision_def Math_random_def Let_def split_def holds_onHitLumie)

lemma holds_collisions: "holds pc s \<Longrightarrow> holds pc (collisions n s)"
  unfolding collisions_def
proof (rule fold_preserves [where P = "holds pc"])
  fix i t
  assume "holds pc t"
  then show "holds pc (fold (\<lambda>j. resolveCollision i j) [i + 1..<n] t)"
    by (rule fold_preserves [where P = "holds pc", rotated]) (rule holds_resolveCollision)
qed

lemma holds_stepBall: "holds pc (snd ms) \<Longrightarrow> holds pc (snd (stepBall tlr k ms))"
  by (simp add: stepBall_def Let_def split_def)

lemma holds_updatePositions: "holds pc s \<Longrightarrow> holds pc (snd (updatePositions tlr n s))"
  unfolding updatePositions_def
  by (rule fold_preserves [where P = "\<lambda>ms. holds pc (snd ms)"]) (simp_all add: holds_stepBall)

lemma holds_updatePhysics: "holds pc s \<Longrightarrow> holds pc (updatePhysics s)"
  by (simp add: updatePhysics_def Date_now_def Let_def split_def holds_collisions
      holds_updatePositions)

lemma holds_shoot: "holds pc s \<Longrightarrow> holds pc (shoot s)"
  by (simp add: shoot_def Date_now_def Let_def split_def split: option.splits)

lemma holds_events:
  "holds pc s \<Longrightarrow> holds pc (start p s)"
  "holds pc s \<Longrightarrow> holds pc (move p s)"
  "holds pc s \<Longrightarrow> holds pc (end_drag s)"
  "holds pc s \<Longrightarrow> holds pc (resize w h s)"
  "holds pc s \<Longrightarrow> holds pc (draw s)"
  "holds pc s \<Longrightarrow> holds pc (loop s)"
  by (simp_all add: start_def move_def end_drag_def resize_def draw_def loop_def Let_def
      holds_shoot holds_updatePhysics)

lemma later_holds: "later s t \<Longrightarrow> holds pc s \<Longrightarrow> holds pc t"
  by (induction rule: later.induct)
     (simp_all add: holds_onHitLumie holds_resolveCollision holds_updatePhysics holds_shoot
        holds_events)

text \<open>
  Claim C8. At the first conversion of a match, that is when no player has a colour yet
  (and so every lumie is still red) and the target hit is unlocked, \<open>onHitLumie\<close> gives
  the acting player the colour the target has just taken and the other player the other
  of green and blue; and in every state that comes later, by whatever calls of the game's
  methods and handlers, the two players still have these colours.
\<close>

theorem first_blood:
  assumes "unassigned s" and "colours_ok s" and "player_ok s"
    and "k < length (lumies s)" and "\<not> nextTime s < lockedUntil (getBall s k)"
  shows "playerColors (onHitLumie k s) (currentPlayer s) = Some (color (getBall (onHitLumie k s) k))
       \<and> playerColors (onHitLumie k s) (other (currentPlayer s))
           = Some (opposite (color (getBall (onHitLumie k s) k)))
       \<and> (\<forall>t. later (onHitLumie k s) t \<longrightarrow> playerColors t = playerColors (onHitLumie k s))"
proof -
  let ?s' = "onHitLumie k s"
  have red: "color (getBall s k) = Red"
    using assms(1,2,4)
    by (auto simp: colours_ok_def unassigned_def list_all_length getBall_def allBalls_def
        nth_append)
  have col: "color (getBall ?s' k) = hitColor (nextRandom s) Red"
    using assms(4,5) red by (simp add: onHitLumie_unlocked_ball)
  have pc: "playerColors ?s' =
      (playerColors s)(currentPlayer s \<mapsto> hitColor (nextRandom s) Red,
                       other (currentPlayer s) \<mapsto> opposite (hitColor (nextRandom s) Red))"
    using assms(1,5) red by (simp add: onHitLumie_playerColors)
  have a: "playerColors ?s' (currentPlayer s) = Some (color (getBall ?s' k))"
    by (simp add: pc col)
  have b: "playerColors ?s' (other (currentPlayer s)) = Some (opposite (color (getBall ?s' k)))"
    by (simp add: pc col)
  have "holds (playerColors ?s') ?s'"
    using a b assms(3) by (auto simp: holds_def player_ok_def)
  then have c: "\<forall>t. later ?s' t \<longrightarrow> playerColors t = playerColors ?s'"
    using later_holds by (auto simp: holds_def)
  from a b c show ?thesis by blast
qed

theorem first_blood_witness:
  "unassigned ex_game \<and> colours_ok ex_game \<and> player_ok ex_game
   \<and> 2 < length (lumies ex_game) \<and> \<not> nextTime ex_game < lockedUntil (getBall ex_game 2)
   \<and> color (getBall (onHitLumie 2 ex_game) 2) = Green
   \<and> playerColors (onHitLumie 2 ex_game) 1 = Some Green
   \<and> playerColors (onHitLumie 2 ex_game) 2 = Some Blue
   \<and> later (onHitLumie 2 ex_game) (endTurn (onHitLumie 2 ex_game))
   \<and> playerColors (endTurn (onHitLumie 2 ex_game)) = playerColors (onHitLumie 2 ex_game)"
proof -
  have h: "unassigned ex_game" "colours_ok ex_game" "player_ok ex_game"
    "2 < length (lumies ex_game)" "\<not> nextTime ex_game < lockedUntil (getBall ex_game 2)"
    by (simp_all add: unassigned_def colours_ok_def player_ok_def nextTime_def getBall_def
        allBalls_def ex_game_simps ex_env_simps ex_ball_simps)
  have "color (getBall (onHitLumie 2 ex_game) 2)
        = hitColor (nextRandom ex_game) (color (getBall ex_game 2))"
    using h(4,5) by (simp add: onHitLumie_unlocked_ball)
  then have g: "color (getBall (onHitLumie 2 ex_game) 2) = Green"
    by (simp add: hitColor_def nextRandom_def getBall_def allBalls_def
        ex_game_simps ex_env_simps ex_ball_simps)
  have l: "later (onHitLumie 2 ex_game) (endTurn (onHitLumie 2 ex_game))"
    by (intro later_endTurn later_refl)
  from first_blood [OF h] g l h show ?thesis
    by (simp add: ex_game_simps other_def opposite_def)
qed

text \<open>
  Claim C3, as the code has it. When a conversion brings the score of green or of blue
  over the five lumies to 5, the same call of \<open>onHitLumie\<close> declares that colour the
  winner (\<open>gameOver\<close> shows the modal for it). The declaration is all that happens: the
  conversion leaves the turn state and the current player as they were, so the roll in
  progress goes on and is evaluated by \<open>endTurn\<close> as any other roll.
\<close>

theorem onHitLumie_declares_winner:
  assumes "length (lumies s) = 5" and "\<not> nextTime s < lockedUntil (getBall s k)"
  shows "(score Green (onHitLumie k s) = 5 \<longrightarrow> modal (onHitLumie k s) = Some Green)
       \<and> (score Blue (onHitLumie k s) = 5 \<longrightarrow> modal (onHitLumie k s) = Some Blue)
       \<and> turnState (onHitLumie k s) = turnState s
       \<and> currentPlayer (onHitLumie k s) = currentPlayer s"
proof -
  have len: "length (lumies (onHitLumie k s)) = 5"
    using assms(1) by simp
  have "score Green (onHitLumie k s) = 5 \<Longrightarrow> score Blue (onHitLumie k s) \<noteq> 5"
    using scores_exclusive [OF len] by blast
  then show ?thesis
    using assms(2) by (simp add: onHitLumie_modal)
qed

lemma onHitLumie_unlocked_lumies:
  assumes "\<not> nextTime s < lockedUntil (getBall s k)" "k < length (lumies s)"
  shows "lumies (onHitLumie k s) =
         (lumies s)[k := (lumies s ! k)\<lparr>color := hitColor (nextRandom s) (color (lumies s ! k)),
                        lockedUntil := clk (env s) (cpos (env s) + 1) + cooldown\<rparr>]"
  using assms
  by (simp add: onHitLumie_def Date_now_def Math_random_def nextTime_def nextRandom_def Let_def
      split_def hitColor_def setBall_def getBall_def allBalls_def nth_append)

lemma ex_last_simps:
  "lumies ex_last = [ex_ball 20 100 Blue True, ex_ball 20 170 Blue True,
                     ex_ball 20 240 Blue True, ex_ball 20 310 Blue True,
                     ex_ball 20 380 Green True]"
  "playerBall ex_last = ex_ball 22 450 Gold False"
  "env ex_last = ex_env" "turnChanges ex_last = []"
  "playerColors ex_last = [1 \<mapsto> Green, 2 \<mapsto> Blue]"
  "currentPlayer ex_last = 1" "turnState ex_last = Rolling" "turnStartTime ex_last = Some 900"
  "width ex_last = Fin 480" "height ex_last = Fin 600" "modal ex_last = None"
  by (simp_all add: ex_last_def ex_assigned_def ex_game_simps)

lemma ex_last_unlocked: "\<not> nextTime ex_last < lockedUntil (getBall ex_last 4)"
  by (simp add: nextTime_def getBall_def allBalls_def ex_last_simps ex_env_simps ex_ball_simps)

lemma ex_last_hit_lumies:
  "lumies (onHitLumie 4 ex_last) =
     [ex_ball 20 100 Blue True, ex_ball 20 170 Blue True, ex_ball 20 240 Blue True,
      ex_ball 20 310 Blue True, (ex_ball 20 380 Blue True)\<lparr>lockedUntil := 5000\<rparr>]"
  using onHitLumie_unlocked_lumies [OF ex_last_unlocked]
  by (simp add: ex_last_simps ex_env_simps hitColor_def cooldown_def ex_ball_def)

lemma ex_last_hit_score: "score Blue (onHitLumie 4 ex_last) = 5"
  by (simp add: score_def ex_last_hit_lumies ex_ball_simps)

theorem onHitLumie_declares_winner_witness:
  "length (lumies ex_last) = 5 \<and> \<not> nextTime ex_last < lockedUntil (getBall ex_last 4)
   \<and> score Blue (onHitLumie 4 ex_last) = 5
   \<and> modal (onHitLumie 4 ex_last) = Some Blue
   \<and> turnState (onHitLumie 4 ex_last) = Rolling
   \<and> currentPlayer (onHitLumie 4 ex_last) = 1"
proof -
  have len: "length (lumies ex_last) = 5" by (simp add: ex_last_simps)
  from onHitLumie_declares_winner [OF len ex_last_unlocked] len ex_last_unlocked
    ex_last_hit_score
  show ?thesis by (simp add: ex_last_simps)
qed

section \<open>One tick of a ball\<close>

lemma isFinite_iff: "isFinite v \<longleftrightarrow> (\<exists>a. v = Fin a)"
  by (cases v) simp_all

lemma hypot_Fin_zero [simp]: "Math_hypot (Fin a) (Fin 0) = Fin \<bar>a\<bar>"
  by simp

lemma sqrt_scaled:
  fixes a c k :: real
  assumes "0 \<le> k"
  shows "sqrt (a * k * (a * k) + c * k * (c * k)) = k * sqrt (a * a + c * c)"
proof -
  have "a * k * (a * k) + c * k * (c * k) = k\<^sup>2 * (a * a + c * c)"
    by (simp add: power2_eq_square algebra_simps)
  then show ?thesis using assms by (simp add: real_sqrt_mult)
qed

lemma frictionSpeed_Fin:
  assumes "vx b = Fin a" "vy b = Fin c"
  shows "speed b = Fin (sqrt (a * a + c * c))"
    and "frictionSpeed b = Fin (0.94 * sqrt (a * a + c * c))"
  using assms sqrt_scaled [of "0.94" a c]
  by (simp_all add: speed_def frictionSpeed_def friction_def)

lemma update_velocity:
  assumes "\<not> (isLumie b \<and> Fin 0.1 < frictionSpeed b)"
  shows "vx (fst (update b e)) = (if frictionSpeed b < stopThreshold then Fin 0 else vx b * friction)"
    and "vy (fst (update b e)) = (if frictionSpeed b < stopThreshold then Fin 0 else vy b * friction)"
  using assms by (auto simp: update_def frictionSpeed_def Let_def split_def)

lemma update_stops:
  assumes "frictionSpeed b < stopThreshold"
  shows "vx (fst (update b e)) = Fin 0" "vy (fst (update b e)) = Fin 0"
    "angularVelocity (fst (update b e)) = Fin 0"
  using assms by (simp_all add: update_def frictionSpeed_def Let_def split_def)

lemma update_wobble:
  assumes "isLumie b" and "frictionSpeed b = Fin f" and "1 / 10 < f"
  shows "vx (fst (update b e))
         = vx b * friction + Math_cos (angle b + angularVelocity b + heavyPhase b) * wobbleStrength"
    and "vy (fst (update b e))
         = vy b * friction + Math_sin (angle b + angularVelocity b + heavyPhase b) * wobbleStrength"
  using assms
  by (simp_all add: update_def frictionSpeed_def stopThreshold_def Math_random_def Let_def
      split_def)

lemma wobble_bound:
  fixes a c t :: real
  shows "sqrt ((a * (47 / 50) + cos t * (3 / 20)) * (a * (47 / 50) + cos t * (3 / 20))
             + (c * (47 / 50) + sin t * (3 / 20)) * (c * (47 / 50) + sin t * (3 / 20)))
         \<le> 47 / 50 * sqrt (a * a + c * c) + 3 / 20"
proof -
  have "sqrt ((a * (47 / 50) + cos t * (3 / 20))\<^sup>2 + (c * (47 / 50) + sin t * (3 / 20))\<^sup>2)
        \<le> sqrt ((a * (47 / 50))\<^sup>2 + (c * (47 / 50))\<^sup>2)
          + sqrt ((cos t * (3 / 20))\<^sup>2 + (sin t * (3 / 20))\<^sup>2)"
    by (rule real_sqrt_sum_squares_triangle_ineq)
  moreover have "sqrt ((a * (47 / 50))\<^sup>2 + (c * (47 / 50))\<^sup>2) = 47 / 50 * sqrt (a * a + c * c)"
    using sqrt_scaled [of "47 / 50" a c] by (simp add: power2_eq_square)
  moreover have "sqrt ((cos t * (3 / 20))\<^sup>2 + (sin t * (3 / 20))\<^sup>2) = 3 / 20"
  proof -
    have "cos t * cos t + sin t * sin t = 1"
      using sin_cos_squared_add2 [of t] by (simp add: power2_eq_square)
    then show ?thesis
      using sqrt_scaled [of "3 / 20" "cos t" "sin t"] by (simp add: power2_eq_square)
  qed
  ultimately show ?thesis
    by (simp add: power2_eq_square)
qed

text \<open>
  Claim C2, as the code has it. One tick strictly decreases the linear speed of a ball
  with finite velocity whose speed is above the stop threshold, except possibly for a
  lumie whose speed after friction exceeds 0.1 and whose speed is at most 2.5: such a
  lumie receives the wobble impulse of size 0.15, which friction (a factor 0.94) outweighs
  only above speed 2.5. (For a lumie the orientation, the angular velocity and the heavy
  phase are taken finite, as they are on the board.) For every ball, when the speed after
  friction is below the stop threshold, the tick sets the linear velocity and the angular
  velocity to exactly zero.
\<close>

theorem update_friction:
  assumes "isFinite (vx b)" and "isFinite (vy b)"
    and "isLumie b \<longrightarrow>
           isFinite (angle b) \<and> isFinite (angularVelocity b) \<and> isFinite (heavyPhase b)"
  shows "(\<not> (isLumie b \<and> Fin 0.1 < frictionSpeed b \<and> \<not> Fin 2.5 < speed b)
          \<and> stopThreshold < speed b \<longrightarrow>
            speed (fst (update b e)) < speed b)
       \<and> (frictionSpeed b < stopThreshold \<longrightarrow>
            vx (fst (update b e)) = Fin 0 \<and> vy (fst (update b e)) = Fin 0
            \<and> angularVelocity (fst (update b e)) = Fin 0)"
proof (intro conjI impI)
  assume h: "\<not> (isLumie b \<and> Fin 0.1 < frictionSpeed b \<and> \<not> Fin 2.5 < speed b)
             \<and> stopThreshold < speed b"
  obtain a c where ac: "vx b = Fin a" "vy b = Fin c"
    using assms by (auto simp: isFinite_iff)
  define S where "S = sqrt (a * a + c * c)"
  have sp: "speed b = Fin S" and fs: "frictionSpeed b = Fin (0.94 * S)"
    using frictionSpeed_Fin [OF ac] by (simp_all add: S_def)
  have pos: "0 < S"
    using h by (simp add: sp stopThreshold_def)
  show "speed (fst (update b e)) < speed b"
  proof (cases "isLumie b \<and> Fin 0.1 < frictionSpeed b")
    case False
    have "speed (fst (update b e))
          = (if frictionSpeed b < stopThreshold then Fin 0 else Fin (0.94 * S))"
      using update_velocity [OF False, of e] fs
      by (auto simp: speed_def frictionSpeed_def)
    then show ?thesis
      using pos by (simp add: sp)
  next
    case True
    then have fast: "5 / 2 < S"
      using h by (simp add: sp)
    have f: "1 / 10 < 0.94 * S"
      using True by (simp add: fs)
    obtain g w p where ang: "angle b = Fin g" "angularVelocity b = Fin w" "heavyPhase b = Fin p"
      using True assms(3) by (auto simp: isFinite_iff)
    define t where "t = g + w + p"
    have v: "vx (fst (update b e)) = Fin (a * (47 / 50) + cos t * (3 / 20))"
      "vy (fst (update b e)) = Fin (c * (47 / 50) + sin t * (3 / 20))"
      using update_wobble [OF conjunct1 [OF True] fs f, of e]
      by (simp_all add: ac ang friction_def wobbleStrength_def t_def)
    have "sqrt ((a * (47 / 50) + cos t * (3 / 20)) * (a * (47 / 50) + cos t * (3 / 20))
             + (c * (47 / 50) + sin t * (3 / 20)) * (c * (47 / 50) + sin t * (3 / 20)))
          \<le> 47 / 50 * S + 3 / 20"
      unfolding S_def by (rule wobble_bound)
    also have "\<dots> < S" using fast by simp
    finally have lt:
      "sqrt ((a * (47 / 50) + cos t * (3 / 20)) * (a * (47 / 50) + cos t * (3 / 20))
             + (c * (47 / 50) + sin t * (3 / 20)) * (c * (47 / 50) + sin t * (3 / 20))) < S" .
    have "speed (fst (update b e))
          = Fin (sqrt ((a * (47 / 50) + cos t * (3 / 20)) * (a * (47 / 50) + cos t * (3 / 20))
             + (c * (47 / 50) + sin t * (3 / 20)) * (c * (47 / 50) + sin t * (3 / 20))))"
      by (simp add: speed_def v)
    then show ?thesis
      using lt by (simp add: sp)
  qed
next
  assume "frictionSpeed b < stopThreshold"
  then show "vx (fst (update b e)) = Fin 0" "vy (fst (update b e)) = Fin 0"
    "angularVelocity (fst (update b e)) = Fin 0"
    by (rule update_stops)+
qed

lemma ex_rolling_simps:
  "vx ex_rolling_lumie = Fin 1" "vy ex_rolling_lumie = Fin 0" "isLumie ex_rolling_lumie"
  "angle ex_rolling_lumie = Fin 0" "heavyPhase ex_rolling_lumie = Fin 0"
  "angularVelocity ex_rolling_lumie = Fin 0"
  "vx ex_rolling_player = Fin 1" "vy ex_rolling_player = Fin 0" "\<not> isLumie ex_rolling_player"
  "vx ex_creeping_player = Fin (1 / 20)" "vy ex_creeping_player = Fin 0"
  "\<not> isLumie ex_creeping_player"
  "vx ex_fast_lumie = Fin 5" "vy ex_fast_lumie = Fin 0" "isLumie ex_fast_lumie"
  "angle ex_fast_lumie = Fin 0" "heavyPhase ex_fast_lumie = Fin 0"
  "angularVelocity ex_fast_lumie = Fin 0"
  by (simp_all add: ex_rolling_lumie_def ex_rolling_player_def ex_creeping_player_def
      ex_fast_lumie_def ex_ball_def)

theorem update_friction_witness:
  "isFinite (vx ex_rolling_player) \<and> isFinite (vy ex_rolling_player)
   \<and> \<not> isLumie ex_rolling_player
   \<and> stopThreshold < speed ex_rolling_player
   \<and> speed (fst (update ex_rolling_player ex_env)) < speed ex_rolling_player
   \<and> isFinite (vx ex_fast_lumie) \<and> isFinite (vy ex_fast_lumie)
   \<and> isLumie ex_fast_lumie \<and> isFinite (angle ex_fast_lumie)
   \<and> isFinite (angularVelocity ex_fast_lumie) \<and> isFinite (heavyPhase ex_fast_lumie)
   \<and> Fin 0.1 < frictionSpeed ex_fast_lumie \<and> Fin 2.5 < speed ex_fast_lumie
   \<and> stopThreshold < speed ex_fast_lumie
   \<and> speed (fst (update ex_fast_lumie ex_env)) < speed ex_fast_lumie
   \<and> isFinite (vx ex_creeping_player) \<and> isFinite (vy ex_creeping_player)
   \<and> frictionSpeed ex_creeping_player < stopThreshold
   \<and> vx (fst (update ex_creeping_player ex_env)) = Fin 0
   \<and> vy (fst (update ex_creeping_player ex_env)) = Fin 0
   \<and> angularVelocity (fst (update ex_creeping_player ex_env)) = Fin 0"
  using update_friction [of ex_rolling_player ex_env]
    update_friction [of ex_fast_lumie ex_env]
    update_friction [of ex_creeping_player ex_env]
  by (simp add: ex_rolling_simps speed_def frictionSpeed_def friction_def stopThreshold_def
      del: Math_hypot.simps)

text \<open>
  The claim as stated fails for a lumie: one rolling at speed 1 towards its heavy side has
  speed 0.94 after friction and 1.09 after the wobble impulse of the same tick.
\<close>

theorem update_lumie_speeds_up:
  "stopThreshold < speed ex_rolling_lumie
   \<and> speed (fst (update ex_rolling_lumie ex_env)) = Fin (109 / 100)
   \<and> \<not> speed (fst (update ex_rolling_lumie ex_env)) < speed ex_rolling_lumie"
proof -
  have v: "vx (fst (update ex_rolling_lumie ex_env)) = Fin (109 / 100)"
    "vy (fst (update ex_rolling_lumie ex_env)) = Fin 0"
    by (simp_all add: update_def Let_def split_def Math_random_def ex_rolling_simps
        friction_def wobbleStrength_def stopThreshold_def del: Math_hypot.simps)
  show ?thesis
    by (simp add: speed_def v ex_rolling_simps stopThreshold_def del: Math_hypot.simps)
qed

section \<open>Collision resolution\<close>

lemma getBall_setBall_out:
  "length (lumies s) < k \<Longrightarrow> getBall (setBall s k b) m = getBall s m"
  by (simp add: setBall_def)

lemma onHitLumie_other:
  "m \<noteq> k \<Longrightarrow> getBall (onHitLumie k s) m = getBall s m"
  by (simp add: onHitLumie_def Date_now_def Math_random_def Let_def split_def
      getBall_setBall_other)

lemma onHitLumie_out:
  "length (lumies s) < k \<Longrightarrow> getBall (onHitLumie k s) m = getBall s m"
  by (simp add: onHitLumie_def Date_now_def Math_random_def Let_def split_def
      getBall_setBall_out)

lemma onHitLumie_getBall:
  "\<exists>c l. getBall (onHitLumie k s) m = (getBall s m)\<lparr>color := c, lockedUntil := l\<rparr>"
proof (cases "nextTime s < lockedUntil (getBall s k)")
  case True
  then have "getBall (onHitLumie k s) m
             = (getBall s m)\<lparr>color := color (getBall s m), lockedUntil := lockedUntil (getBall s m)\<rparr>"
    by (simp add: onHitLumie_locked_eq)
  then show ?thesis by blast
next
  case False
  show ?thesis
  proof (cases "m = k \<and> k \<le> length (lumies s)")
    case True
    then show ?thesis using onHitLumie_unlocked_ball [OF False] by blast
  next
    case False
    then have "getBall (onHitLumie k s) m = getBall s m"
      by (auto simp: onHitLumie_other onHitLumie_out)
    then have "getBall (onHitLumie k s) m
             = (getBall s m)\<lparr>color := color (getBall s m), lockedUntil := lockedUntil (getBall s m)\<rparr>"
      by simp
    then show ?thesis by blast
  qed
qed

lemma onHitLumie_physics [simp]:
  "ball_x (getBall (onHitLumie k s) m) = ball_x (getBall s m)"
  "ball_y (getBall (onHitLumie k s) m) = ball_y (getBall s m)"
  "ball_r (getBall (onHitLumie k s) m) = ball_r (getBall s m)"
  "vx (getBall (onHitLumie k s) m) = vx (getBall s m)"
  "vy (getBall (onHitLumie k s) m) = vy (getBall s m)"
  "mass (getBall (onHitLumie k s) m) = mass (getBall s m)"
  "angularVelocity (getBall (onHitLumie k s) m) = angularVelocity (getBall s m)"
  "isLumie (getBall (onHitLumie k s) m) = isLumie (getBall s m)"
  using onHitLumie_getBall [of k s m] by auto

lemma resolveCollision_no_overlap:
  "\<not> centerDistance (getBall s i) (getBall s j) < ball_r (getBall s i) + ball_r (getBall s j)
   \<Longrightarrow> resolveCollision i j s = s"
  by (simp add: resolveCollision_def centerDistance_def Let_def)

lemma resolveCollision_other:
  assumes "m \<noteq> i" "m \<noteq> j"
  shows "getBall (resolveCollision i j s) m = getBall s m"
proof (cases "centerDistance (getBall s i) (getBall s j) < ball_r (getBall s i) + ball_r (getBall s j)")
  case False
  then show ?thesis by (simp add: resolveCollision_no_overlap)
next
  case True
  then show ?thesis using assms
    by (simp add: resolveCollision_def Let_def split_def Math_random_def getBall_setBall_other
        onHitLumie_other centerDistance_def)
qed

lemma resolveCollision_position:
  fixes s i j
  defines "b1 \<equiv> getBall s i" and "b2 \<equiv> getBall s j"
  assumes "i \<noteq> j" "i \<le> length (lumies s)" "j \<le> length (lumies s)"
    and "centerDistance b1 b2 < ball_r b1 + ball_r b2"
  shows "ball_x (getBall (resolveCollision i j s) i)
         = ball_x b1 - fst (contactNormal b1 b2) * overlapOf b1 b2 * Fin 0.5"
    and "ball_y (getBall (resolveCollision i j s) i)
         = ball_y b1 - snd (contactNormal b1 b2) * overlapOf b1 b2 * Fin 0.5"
    and "ball_x (getBall (resolveCollision i j s) j)
         = ball_x b2 + fst (contactNormal b1 b2) * overlapOf b1 b2 * Fin 0.5"
    and "ball_y (getBall (resolveCollision i j s) j)
         = ball_y b2 + snd (contactNormal b1 b2) * overlapOf b1 b2 * Fin 0.5"
  using assms(3-)
  unfolding b1_def b2_def
  by (simp_all add: resolveCollision_def Let_def split_def Math_random_def getBall_setBall_same
      getBall_setBall_other contactNormal_def overlapOf_def centerDistance_def)

lemma resolveCollision_velocity:
  fixes s i j
  defines "b1 \<equiv> getBall s i" and "b2 \<equiv> getBall s j"
  defines "n \<equiv> contactNormal b1 b2"
  defines "v1n \<equiv> (normalVelocity n b1 * (mass b1 - mass b2)
                    + Fin 2 * mass b2 * normalVelocity n b2) / (mass b1 + mass b2)"
  defines "v2n \<equiv> (normalVelocity n b2 * (mass b2 - mass b1)
                    + Fin 2 * mass b1 * normalVelocity n b1) / (mass b1 + mass b2)"
  assumes "i \<noteq> j" "i \<le> length (lumies s)" "j \<le> length (lumies s)"
    and "centerDistance b1 b2 < ball_r b1 + ball_r b2"
  shows "vx (getBall (resolveCollision i j s) i) = - snd n * tangentVelocity n b1 + fst n * v1n"
    and "vy (getBall (resolveCollision i j s) i) = fst n * tangentVelocity n b1 + snd n * v1n"
    and "vx (getBall (resolveCollision i j s) j) = - snd n * tangentVelocity n b2 + fst n * v2n"
    and "vy (getBall (resolveCollision i j s) j) = fst n * tangentVelocity n b2 + snd n * v2n"
  using assms(6-)
  unfolding b1_def b2_def n_def v1n_def v2n_def
  by (simp_all add: resolveCollision_def Let_def split_def Math_random_def getBall_setBall_same
      getBall_setBall_other contactNormal_def normalVelocity_def tangentVelocity_def
      centerDistance_def)

lemma resolveCollision_mass:
  assumes "i \<noteq> j" "i \<le> length (lumies s)" "j \<le> length (lumies s)"
    and "centerDistance (getBall s i) (getBall s j) < ball_r (getBall s i) + ball_r (getBall s j)"
  shows "mass (getBall (resolveCollision i j s) i) = mass (getBall s i)"
    and "mass (getBall (resolveCollision i j s) j) = mass (getBall s j)"
    and "ball_r (getBall (resolveCollision i j s) i) = ball_r (getBall s i)"
    and "ball_r (getBall (resolveCollision i j s) j) = ball_r (getBall s j)"
  using assms
  by (simp_all add: resolveCollision_def Let_def split_def Math_random_def getBall_setBall_same
      getBall_setBall_other centerDistance_def)

lemma unit_normal:
  fixes dx dy d :: real
  assumes "d = sqrt (dx * dx + dy * dy)" and "d \<noteq> 0"
  shows "dx / d * (dx / d) + dy / d * (dy / d) = 1"
proof -
  have nn: "0 \<le> dx * dx + dy * dy" by simp
  have sq: "d * d = dx * dx + dy * dy"
    unfolding assms(1) using nn by (metis abs_of_nonneg real_sqrt_mult real_sqrt_mult_self)
  have "dx / d * (dx / d) + dy / d * (dy / d) = (dx * dx + dy * dy) / (d * d)"
    by (simp add: add_divide_distrib)
  also have "\<dots> = 1" using assms(2) by (simp add: sq [symmetric])
  finally show ?thesis .
qed

text \<open>
  Separation in exact arithmetic. For two different balls of the board with finite
  positions and radii that overlap and whose centres do not coincide, one call of
  \<open>resolveCollision\<close> moves the first ball back and the second ball forward along the
  contact normal, each by half the overlap, and afterwards the distance of the centres is
  the sum of the radii. This holds for the exact reals that stand for finite numbers
  here; the source computes in doubles, where each operation rounds, so there the distance
  agrees with the sum of the radii only up to rounding.
\<close>

lemma resolveCollision_separates:
  fixes s i j
  defines "b1 \<equiv> getBall s i" and "b2 \<equiv> getBall s j"
  defines "s' \<equiv> resolveCollision i j s"
  assumes idx: "i < j" "j \<le> length (lumies s)"
    and fin1: "isFinite (ball_x b1)" "isFinite (ball_y b1)" "isFinite (ball_r b1)"
    and fin2: "isFinite (ball_x b2)" "isFinite (ball_y b2)" "isFinite (ball_r b2)"
    and ov: "centerDistance b1 b2 < ball_r b1 + ball_r b2"
    and nz: "centerDistance b1 b2 \<noteq> Fin 0"
  shows "ball_x (getBall s' i) = ball_x b1 - fst (contactNormal b1 b2) * overlapOf b1 b2 * Fin 0.5
       \<and> ball_y (getBall s' i) = ball_y b1 - snd (contactNormal b1 b2) * overlapOf b1 b2 * Fin 0.5
       \<and> ball_x (getBall s' j) = ball_x b2 + fst (contactNormal b1 b2) * overlapOf b1 b2 * Fin 0.5
       \<and> ball_y (getBall s' j) = ball_y b2 + snd (contactNormal b1 b2) * overlapOf b1 b2 * Fin 0.5
       \<and> centerDistance (getBall s' i) (getBall s' j) = ball_r b1 + ball_r b2"
proof -
  have ij: "i \<noteq> j" "i \<le> length (lumies s)" "j \<le> length (lumies s)"
    using idx by simp_all
  note pos = resolveCollision_position [OF ij ov [unfolded b1_def b2_def], folded b1_def b2_def s'_def]
  obtain x1 y1 r1 x2 y2 r2 where
    F: "ball_x b1 = Fin x1" "ball_y b1 = Fin y1" "ball_r b1 = Fin r1"
       "ball_x b2 = Fin x2" "ball_y b2 = Fin y2" "ball_r b2 = Fin r2"
    using fin1 fin2 by (auto simp: isFinite_iff)
  define dx where "dx = x2 + - x1"
  define dy where "dy = y2 + - y1"
  define d where "d = sqrt (dx * dx + dy * dy)"
  define k where "k = (r1 + r2) / d"
  have cd: "centerDistance b1 b2 = Fin d"
    by (simp add: centerDistance_def F minus_num_def dx_def dy_def d_def)
  have d0: "d \<noteq> 0" using nz cd by simp
  have "0 \<le> d"
    unfolding d_def by (rule real_sqrt_ge_zero) simp
  then have dpos: "0 < d"
    using d0 by simp
  have dR: "d < r1 + r2" using ov by (simp add: cd F)
  have k0: "0 \<le> k" using dpos dR by (simp add: k_def)
  have n: "contactNormal b1 b2 = (Fin (dx / d), Fin (dy / d))"
    using d0
    by (simp add: contactNormal_def cd F minus_num_def dx_def dy_def)
  have o: "overlapOf b1 b2 = Fin (r1 + r2 + - d)"
    by (simp add: overlapOf_def cd F minus_num_def)
  define ax where "ax = x1 + - (dx / d * (r1 + r2 + - d) * 0.5)"
  define ay where "ay = y1 + - (dy / d * (r1 + r2 + - d) * 0.5)"
  define bx where "bx = x2 + dx / d * (r1 + r2 + - d) * 0.5"
  define bY where "bY = y2 + dy / d * (r1 + r2 + - d) * 0.5"
  have x1': "ball_x (getBall s' i) = Fin ax"
    and y1': "ball_y (getBall s' i) = Fin ay"
    and x2': "ball_x (getBall s' j) = Fin bx"
    and y2': "ball_y (getBall s' j) = Fin bY"
    by (simp_all add: pos n o F minus_num_def ax_def ay_def bx_def bY_def)
  have ex: "bx + - ax = dx * k"
    using d0 by (simp add: ax_def bx_def k_def dx_def field_simps)
  have ey: "bY + - ay = dy * k"
    using d0 by (simp add: ay_def bY_def k_def dy_def field_simps)
  have "centerDistance (getBall s' i) (getBall s' j)
        = Fin (sqrt ((bx + - ax) * (bx + - ax) + (bY + - ay) * (bY + - ay)))"
    by (simp add: centerDistance_def x1' y1' x2' y2' minus_num_def)
  also have "\<dots> = Fin (sqrt (dx * k * (dx * k) + dy * k * (dy * k)))"
    by (simp only: ex ey)
  also have "\<dots> = Fin (k * d)"
    using sqrt_scaled [OF k0, of dx dy] by (simp add: d_def)
  also have "\<dots> = Fin (r1 + r2)"
    using d0 by (simp add: k_def)
  finally have dist: "centerDistance (getBall s' i) (getBall s' j) = ball_r b1 + ball_r b2"
    by (simp add: F)
  from pos dist show ?thesis by simp
qed

lemma ex_overlap_simps:
  "getBall ex_overlap 0 = (ex_ball 20 100 Red True)\<lparr>vx := Fin 3, vy := Fin 1\<rparr>"
  "getBall ex_overlap 1 = (ex_ball 20 130 Red True)\<lparr>vx := Fin (- 2)\<rparr>"
  "getBall ex_overlap (Suc 0) = (ex_ball 20 130 Red True)\<lparr>vx := Fin (- 2)\<rparr>"
  "length (lumies ex_overlap) = 5"
  by (simp_all add: ex_overlap_def getBall_def setBall_def allBalls_def ex_game_simps)

lemma resolveCollision_separates_example:
  "(0::nat) < 1 \<and> 1 \<le> length (lumies ex_overlap)
   \<and> isFinite (ball_x (getBall ex_overlap 0)) \<and> isFinite (ball_y (getBall ex_overlap 0))
   \<and> isFinite (ball_r (getBall ex_overlap 0))
   \<and> isFinite (ball_x (getBall ex_overlap 1)) \<and> isFinite (ball_y (getBall ex_overlap 1))
   \<and> isFinite (ball_r (getBall ex_overlap 1))
   \<and> centerDistance (getBall ex_overlap 0) (getBall ex_overlap 1) = Fin 30
   \<and> ball_r (getBall ex_overlap 0) + ball_r (getBall ex_overlap 1) = Fin 40
   \<and> ball_x (getBall (resolveCollision 0 1 ex_overlap) 0) = Fin 95
   \<and> ball_x (getBall (resolveCollision 0 1 ex_overlap) 1) = Fin 135
   \<and> centerDistance (getBall (resolveCollision 0 1 ex_overlap) 0)
        (getBall (resolveCollision 0 1 ex_overlap) 1) = Fin 40"
  using resolveCollision_separates [where s = ex_overlap and i = 0 and j = 1]
  by (simp add: ex_overlap_simps ex_ball_simps centerDistance_def contactNormal_def
      overlapOf_def minus_num_def del: Math_hypot.simps)

lemma elastic_momentum:
  fixes m1 m2 p1 p2 :: real
  assumes "m1 + m2 \<noteq> 0"
  shows "m1 * ((p1 * (m1 + - m2) + 2 * m2 * p2) / (m1 + m2))
       + m2 * ((p2 * (m2 + - m1) + 2 * m1 * p1) / (m1 + m2))
       = m1 * p1 + m2 * p2"
proof -
  have "m1 * (p1 * (m1 + - m2) + 2 * m2 * p2) + m2 * (p2 * (m2 + - m1) + 2 * m1 * p1)
        = (m1 * p1 + m2 * p2) * (m1 + m2)"
    by (simp add: algebra_simps)
  then have "(m1 * (p1 * (m1 + - m2) + 2 * m2 * p2) + m2 * (p2 * (m2 + - m1) + 2 * m1 * p1))
             / (m1 + m2) = m1 * p1 + m2 * p2"
    using assms by simp
  then show ?thesis
    unfolding times_divide_eq_right add_divide_distrib [symmetric] .
qed

lemma rotate_back:
  fixes nx ny t v :: real
  assumes "nx * nx + ny * ny = 1"
  shows "(- ny * t + nx * v) * nx + (nx * t + ny * v) * ny = v"
    and "(- ny * t + nx * v) * - ny + (nx * t + ny * v) * nx = t"
proof -
  have "(- ny * t + nx * v) * nx + (nx * t + ny * v) * ny = v * (nx * nx + ny * ny)"
    by (simp add: algebra_simps)
  then show "(- ny * t + nx * v) * nx + (nx * t + ny * v) * ny = v"
    by (simp add: assms)
  have "(- ny * t + nx * v) * - ny + (nx * t + ny * v) * nx = t * (nx * nx + ny * ny)"
    by (simp add: algebra_simps)
  then show "(- ny * t + nx * v) * - ny + (nx * t + ny * v) * nx = t"
    by (simp add: assms)
qed

text \<open>
  Claim C4. For two different balls of the board with finite positions, velocities and
  masses, positive masses, that overlap and whose centres do not coincide, one call of
  \<open>resolveCollision\<close> conserves the momentum along the contact normal: the sum of mass
  times normal velocity of the two balls is the same after the call as before, and it is
  finite; and the tangential velocity of each ball is unchanged. Finite numbers are exact
  reals here, so this is the statement in exact arithmetic.
\<close>

theorem resolveCollision_momentum:
  fixes s i j
  defines "b1 \<equiv> getBall s i" and "b2 \<equiv> getBall s j"
  defines "s' \<equiv> resolveCollision i j s"
  defines "n \<equiv> contactNormal b1 b2"
  assumes idx: "i < j" "j \<le> length (lumies s)"
    and fin1: "isFinite (ball_x b1)" "isFinite (ball_y b1)" "isFinite (vx b1)" "isFinite (vy b1)"
      "isFinite (mass b1)"
    and fin2: "isFinite (ball_x b2)" "isFinite (ball_y b2)" "isFinite (vx b2)" "isFinite (vy b2)"
      "isFinite (mass b2)"
    and pos: "Fin 0 < mass b1" "Fin 0 < mass b2"
    and ov: "centerDistance b1 b2 < ball_r b1 + ball_r b2"
    and nz: "centerDistance b1 b2 \<noteq> Fin 0"
  shows "mass b1 * normalVelocity n (getBall s' i) + mass b2 * normalVelocity n (getBall s' j)
         = mass b1 * normalVelocity n b1 + mass b2 * normalVelocity n b2
       \<and> isFinite (mass b1 * normalVelocity n b1 + mass b2 * normalVelocity n b2)
       \<and> tangentVelocity n (getBall s' i) = tangentVelocity n b1
       \<and> tangentVelocity n (getBall s' j) = tangentVelocity n b2"
proof -
  have ij: "i \<noteq> j" "i \<le> length (lumies s)" "j \<le> length (lumies s)"
    using idx by simp_all
  note vel = resolveCollision_velocity [OF ij ov [unfolded b1_def b2_def],
      folded b1_def b2_def, folded n_def s'_def]
  obtain x1 y1 u1 w1 m1 x2 y2 u2 w2 m2 where
    F: "ball_x b1 = Fin x1" "ball_y b1 = Fin y1" "vx b1 = Fin u1" "vy b1 = Fin w1"
       "mass b1 = Fin m1"
       "ball_x b2 = Fin x2" "ball_y b2 = Fin y2" "vx b2 = Fin u2" "vy b2 = Fin w2"
       "mass b2 = Fin m2"
    using fin1 fin2 by (auto simp: isFinite_iff)
  define dx where "dx = x2 + - x1"
  define dy where "dy = y2 + - y1"
  define d where "d = sqrt (dx * dx + dy * dy)"
  define nx where "nx = dx / d"
  define ny where "ny = dy / d"
  define p1 where "p1 = u1 * nx + w1 * ny"
  define p2 where "p2 = u2 * nx + w2 * ny"
  define t1 where "t1 = u1 * - ny + w1 * nx"
  define t2 where "t2 = u2 * - ny + w2 * nx"
  define v1 where "v1 = (p1 * (m1 + - m2) + 2 * m2 * p2) / (m1 + m2)"
  define v2 where "v2 = (p2 * (m2 + - m1) + 2 * m1 * p1) / (m1 + m2)"
  have cd: "centerDistance b1 b2 = Fin d"
    by (simp add: centerDistance_def F minus_num_def dx_def dy_def d_def)
  have d0: "d \<noteq> 0" using nz cd by simp
  have unit: "nx * nx + ny * ny = 1"
    unfolding nx_def ny_def by (rule unit_normal [OF d_def d0])
  have m0: "m1 + m2 \<noteq> 0" using pos by (simp add: F)
  have n: "n = (Fin nx, Fin ny)"
    using d0
    by (simp add: n_def contactNormal_def cd F minus_num_def dx_def dy_def nx_def ny_def)
  have nv: "normalVelocity (Fin nx, Fin ny) b1 = Fin p1"
    "normalVelocity (Fin nx, Fin ny) b2 = Fin p2"
    by (simp_all add: normalVelocity_def F p1_def p2_def)
  have tv: "tangentVelocity (Fin nx, Fin ny) b1 = Fin t1"
    "tangentVelocity (Fin nx, Fin ny) b2 = Fin t2"
    by (simp_all add: tangentVelocity_def F t1_def t2_def)
  have after: "vx (getBall s' i) = Fin (- ny * t1 + nx * v1)"
    "vy (getBall s' i) = Fin (nx * t1 + ny * v1)"
    "vx (getBall s' j) = Fin (- ny * t2 + nx * v2)"
    "vy (getBall s' j) = Fin (nx * t2 + ny * v2)"
    using m0 by (simp_all add: vel nv tv n F minus_num_def v1_def v2_def)
  have nv': "normalVelocity n (getBall s' i) = Fin v1" "normalVelocity n (getBall s' j) = Fin v2"
    using rotate_back [OF unit, of t1 v1] rotate_back [OF unit, of t2 v2]
    by (simp_all add: normalVelocity_def n after)
  have tv': "tangentVelocity n (getBall s' i) = Fin t1" "tangentVelocity n (getBall s' j) = Fin t2"
    using rotate_back [OF unit, of t1 v1] rotate_back [OF unit, of t2 v2]
    by (simp_all add: tangentVelocity_def n after)
  have "m1 * v1 + m2 * v2 = m1 * p1 + m2 * p2"
    unfolding v1_def v2_def by (rule elastic_momentum [OF m0])
  then show ?thesis
    by (simp add: n [symmetric] nv [folded n] nv' tv [folded n] tv' F)
qed

theorem resolveCollision_momentum_witness:
  "(0::nat) < 1 \<and> 1 \<le> length (lumies ex_overlap)
   \<and> isFinite (ball_x (getBall ex_overlap 0)) \<and> isFinite (ball_y (getBall ex_overlap 0))
   \<and> isFinite (vx (getBall ex_overlap 0)) \<and> isFinite (vy (getBall ex_overlap 0))
   \<and> isFinite (mass (getBall ex_overlap 0))
   \<and> isFinite (ball_x (getBall ex_overlap 1)) \<and> isFinite (ball_y (getBall ex_overlap 1))
   \<and> isFinite (vx (getBall ex_overlap 1)) \<and> isFinite (vy (getBall ex_overlap 1))
   \<and> isFinite (mass (getBall ex_overlap 1))
   \<and> Fin 0 < mass (getBall ex_overlap 0) \<and> Fin 0 < mass (getBall ex_overlap 1)
   \<and> centerDistance (getBall ex_overlap 0) (getBall ex_overlap 1) = Fin 30
   \<and> ball_r (getBall ex_overlap 0) + ball_r (getBall ex_overlap 1) = Fin 40
   \<and> contactNormal (getBall ex_overlap 0) (getBall ex_overlap 1) = (Fin 1, Fin 0)
   \<and> mass (getBall ex_overlap 0)
        * normalVelocity (Fin 1, Fin 0) (getBall (resolveCollision 0 1 ex_overlap) 0)
      + mass (getBall ex_overlap 1)
        * normalVelocity (Fin 1, Fin 0) (getBall (resolveCollision 0 1 ex_overlap) 1) = Fin 20
   \<and> mass (getBall ex_overlap 0) * normalVelocity (Fin 1, Fin 0) (getBall ex_overlap 0)
      + mass (getBall ex_overlap 1) * normalVelocity (Fin 1, Fin 0) (getBall ex_overlap 1) = Fin 20
   \<and> tangentVelocity (Fin 1, Fin 0) (getBall (resolveCollision 0 1 ex_overlap) 0) = Fin 1
   \<and> tangentVelocity (Fin 1, Fin 0) (getBall (resolveCollision 0 1 ex_overlap) 1) = Fin 0"
  using resolveCollision_momentum [where s = ex_overlap and i = 0 and j = 1]
  by (simp add: ex_overlap_simps ex_ball_simps centerDistance_def contactNormal_def
      normalVelocity_def tangentVelocity_def minus_num_def del: Math_hypot.simps)

lemma NaN_absorbs [simp]:
  "a + NaN = NaN" "a - NaN = NaN" "NaN - a = NaN" "a * NaN = NaN" "a / NaN = NaN"
  by (cases a; simp add: minus_num_def)+

lemma ex_coincident_simps:
  "getBall ex_coincident 0 = ex_ball 20 100 Red True"
  "getBall ex_coincident 1 = ex_ball 20 100 Red True"
  "getBall ex_coincident (Suc 0) = ex_ball 20 100 Red True"
  "length (lumies ex_coincident) = 5"
  by (simp_all add: ex_coincident_def getBall_def setBall_def allBalls_def ex_game_simps)

text \<open>
  Claim C1 fails on the code. When the centres of two overlapping balls coincide, the
  distance is 0 and \<open>resolveCollision\<close> divides by it: the normal is \<open>0 / 0 = NaN\<close>, and the
  call writes \<open>NaN\<close> into the position and the velocity of both balls. Here for two lumies
  at the same point, both at rest.
\<close>

theorem resolveCollision_coincident_NaN:
  "centerDistance (getBall ex_coincident 0) (getBall ex_coincident 1) = Fin 0
   \<and> ball_x (getBall (resolveCollision 0 1 ex_coincident) 0) = NaN
   \<and> ball_y (getBall (resolveCollision 0 1 ex_coincident) 0) = NaN
   \<and> vx (getBall (resolveCollision 0 1 ex_coincident) 0) = NaN
   \<and> vy (getBall (resolveCollision 0 1 ex_coincident) 0) = NaN
   \<and> ball_x (getBall (resolveCollision 0 1 ex_coincident) 1) = NaN
   \<and> ball_y (getBall (resolveCollision 0 1 ex_coincident) 1) = NaN
   \<and> vx (getBall (resolveCollision 0 1 ex_coincident) 1) = NaN
   \<and> vy (getBall (resolveCollision 0 1 ex_coincident) 1) = NaN
   \<and> \<not> isFinite (ball_x (getBall (resolveCollision 0 1 ex_coincident) 0))"
proof -
  have cd: "centerDistance (getBall ex_coincident 0) (getBall ex_coincident 1) = Fin 0"
    by (simp add: centerDistance_def ex_coincident_simps ex_ball_simps minus_num_def
        del: Math_hypot.simps)
  have ov: "centerDistance (getBall ex_coincident 0) (getBall ex_coincident 1)
            < ball_r (getBall ex_coincident 0) + ball_r (getBall ex_coincident 1)"
    by (simp add: centerDistance_def ex_coincident_simps ex_ball_simps minus_num_def
        del: Math_hypot.simps)
  have ij: "(0::nat) \<noteq> 1" "0 \<le> length (lumies ex_coincident)"
    "1 \<le> length (lumies ex_coincident)"
    by (simp_all add: ex_coincident_simps)
  have n: "contactNormal (getBall ex_coincident 0) (getBall ex_coincident 1) = (NaN, NaN)"
    by (simp add: contactNormal_def centerDistance_def ex_coincident_simps ex_ball_simps
        minus_num_def del: Math_hypot.simps)
  note pos = resolveCollision_position [OF ij ov, unfolded n]
  note vel = resolveCollision_velocity [OF ij ov, unfolded n]
  show ?thesis
    using cd pos vel by simp
qed

section \<open>The physics tick\<close>

lemma stepBall_fst_limit: "fst (stepBall True k (m, s)) = m"
  by (simp add: stepBall_def Let_def split_def restitution_def)

lemma stepBall_limit_ball:
  assumes "k \<le> length (lumies s)"
  shows "vx (getBall (snd (stepBall True k (m, s))) k) = Fin 0"
    and "vy (getBall (snd (stepBall True k (m, s))) k) = Fin 0"
    and "angularVelocity (getBall (snd (stepBall True k (m, s))) k) = Fin 0"
  using assms
  by (simp_all add: stepBall_def Let_def split_def restitution_def getBall_setBall_same)

lemma stepBall_other:
  "j \<noteq> k \<Longrightarrow> getBall (snd (stepBall tlr k ms)) j = getBall (snd ms) j"
  by (simp add: stepBall_def Let_def split_def getBall_setBall_other)

lemma stepBall_frame [simp]:
  "length (lumies (snd (stepBall tlr k ms))) = length (lumies (snd ms))"
  "turnState (snd (stepBall tlr k ms)) = turnState (snd ms)"
  "currentPlayer (snd (stepBall tlr k ms)) = currentPlayer (snd ms)"
  "playerColors (snd (stepBall tlr k ms)) = playerColors (snd ms)"
  "turnChanges (snd (stepBall tlr k ms)) = turnChanges (snd ms)"
  by (simp_all add: stepBall_def Let_def split_def)

lemma updatePositions_limit_upto:
  assumes "n \<le> length (lumies s) + 1"
  shows "fst (fold (stepBall True) [0..<n] (False, s)) = False
       \<and> length (lumies (snd (fold (stepBall True) [0..<n] (False, s)))) = length (lumies s)
       \<and> turnState (snd (fold (stepBall True) [0..<n] (False, s))) = turnState s
       \<and> (\<forall>k<n. vx (getBall (snd (fold (stepBall True) [0..<n] (False, s))) k) = Fin 0
              \<and> vy (getBall (snd (fold (stepBall True) [0..<n] (False, s))) k) = Fin 0
              \<and> angularVelocity (getBall (snd (fold (stepBall True) [0..<n] (False, s))) k) = Fin 0)"
  using assms
proof (induction n)
  case 0
  then show ?case by simp
next
  case (Suc n)
  define p where "p = fold (stepBall True) [0..<n] (False, s)"
  have pre: "n \<le> length (lumies s) + 1" using Suc.prems by simp
  note ih0 = Suc.IH [OF pre, folded p_def]
  have ih: "fst p = False" "length (lumies (snd p)) = length (lumies s)"
    "turnState (snd p) = turnState s"
    using ih0 by blast+
  have ih4: "\<And>k. k < n \<Longrightarrow> vx (getBall (snd p) k) = Fin 0 \<and> vy (getBall (snd p) k) = Fin 0
           \<and> angularVelocity (getBall (snd p) k) = Fin 0"
    using ih0 by blast
  have p: "p = (False, snd p)"
    using ih(1) by (cases p) simp
  have step: "fold (stepBall True) [0..<Suc n] (False, s) = stepBall True n p"
    by (simp add: p_def)
  have n: "n \<le> length (lumies (snd p))"
    using Suc.prems ih(2) by simp
  have zero: "vx (getBall (snd (stepBall True n p)) n) = Fin 0"
    "vy (getBall (snd (stepBall True n p)) n) = Fin 0"
    "angularVelocity (getBall (snd (stepBall True n p)) n) = Fin 0"
    by (subst p, rule stepBall_limit_ball [OF n])+
  have f: "fst (stepBall True n p) = False"
    by (subst p, rule stepBall_fst_limit)
  have others: "\<And>k. k < n \<Longrightarrow> getBall (snd (stepBall True n p)) k = getBall (snd p) k"
    by (rule stepBall_other) simp
  have all: "vx (getBall (snd (stepBall True n p)) k) = Fin 0
           \<and> vy (getBall (snd (stepBall True n p)) k) = Fin 0
           \<and> angularVelocity (getBall (snd (stepBall True n p)) k) = Fin 0" if "k < Suc n" for k
  proof (cases "k = n")
    case True
    then show ?thesis using zero by simp
  next
    case False
    then have "k < n" using that by simp
    then show ?thesis using others [of k] ih4 [of k] by simp
  qed
  have l: "length (lumies (snd (stepBall True n p))) = length (lumies s)"
    "turnState (snd (stepBall True n p)) = turnState s"
    using ih(2,3) by simp_all
  show ?case
    unfolding step using f l all by blast
qed

lemma resolveCollision_frame [simp]:
  "turnState (resolveCollision i j s) = turnState s"
  "currentPlayer (resolveCollision i j s) = currentPlayer s"
  "length (lumies (resolveCollision i j s)) = length (lumies s)"
  by (simp_all add: resolveCollision_def Math_random_def Let_def split_def)

lemma collisions_turnState [simp]: "turnState (collisions n s) = turnState s"
proof -
  have "turnState (fold (\<lambda>i. fold (\<lambda>j. resolveCollision i j) [i + 1..<n]) xs s) = turnState s" for xs
  proof (rule fold_preserves [where P = "\<lambda>t::game. turnState t = turnState s"])
    fix i and t :: game
    assume "turnState t = turnState s"
    then show "turnState (fold (\<lambda>j. resolveCollision i j) [i + 1..<n] t) = turnState s"
      by (rule fold_preserves [where P = "\<lambda>t::game. turnState t = turnState s", rotated]) simp
  qed simp
  then show ?thesis by (simp add: collisions_def)
qed

lemma updatePhysics_late:
  fixes s
  defines "n \<equiv> length (allBalls s)"
  defines "s1 \<equiv> s\<lparr>env := snd (Date_now (env s))\<rparr>"
  defines "s2 \<equiv> snd (updatePositions True n s1)"
  assumes late: "3000 < nextTime s - (case turnStartTime s of None \<Rightarrow> 0 | Some t \<Rightarrow> t)"
    and rolling: "turnState s = Rolling"
  shows "updatePhysics s = endTurn (collisions n s2)"
proof -
  have n: "n \<le> length (lumies s1) + 1"
    by (simp add: n_def s1_def allBalls_def)
  note up = updatePositions_limit_upto [OF n, folded updatePositions_def, folded s2_def]
  have ts: "turnState (collisions n s2) = Rolling"
    using up rolling by (simp add: s1_def)
  have tst: "turnStartTime s1 = turnStartTime s"
    by (simp add: s1_def)
  show ?thesis
    using late up ts tst
    by (simp add: updatePhysics_def Date_now_def Let_def split_def nextTime_def
        n_def [symmetric] s1_def [unfolded Date_now_def, simplified, symmetric]
        s2_def [symmetric])
qed

subsection \<open>Positions after the position loop\<close>

lemma update_frame [simp]:
  "ball_x (fst (update b e)) = ball_x b + vx b"
  "ball_y (fst (update b e)) = ball_y b + vy b"
  "ball_r (fst (update b e)) = ball_r b"
  "mass (fst (update b e)) = mass b"
  "isLumie (fst (update b e)) = isLumie b"
  "color (fst (update b e)) = color b"
  "lockedUntil (fst (update b e)) = lockedUntil b"
  "rnd (snd (update b e)) = rnd e"
  "clk (snd (update b e)) = clk e"
  by (simp_all add: update_def Math_random_def Let_def split_def)

lemma stepBall_inside:
  assumes "k \<le> length (lumies s)" and "staysInside s (getBall s k)"
  shows "ball_x (getBall (snd (stepBall tlr k (m, s))) k) = ball_x (getBall s k) + vx (getBall s k)"
    and "ball_y (getBall (snd (stepBall tlr k (m, s))) k) = ball_y (getBall s k) + vy (getBall s k)"
    and "ball_r (getBall (snd (stepBall tlr k (m, s))) k) = ball_r (getBall s k)"
    and "mass (getBall (snd (stepBall tlr k (m, s))) k) = mass (getBall s k)"
    and "isLumie (getBall (snd (stepBall tlr k (m, s))) k) = isLumie (getBall s k)"
  using assms
  by (simp_all add: stepBall_def Let_def split_def getBall_setBall_same staysInside_def)

lemma stepBall_frame2 [simp]:
  "width (snd (stepBall tlr k ms)) = width (snd ms)"
  "height (snd (stepBall tlr k ms)) = height (snd ms)"
  "rnd (env (snd (stepBall tlr k ms))) = rnd (env (snd ms))"
  "turnStartTime (snd (stepBall tlr k ms)) = turnStartTime (snd ms)"
  by (simp_all add: stepBall_def Let_def split_def)

lemma staysInside_cong:
  "width t = width s \<Longrightarrow> height t = height s \<Longrightarrow> staysInside t b = staysInside s b"
  by (simp add: staysInside_def)

lemma updatePositions_inside_upto:
  assumes "n \<le> length (lumies s) + 1"
    and "\<forall>k<n. staysInside s (getBall s k)"
  shows "length (lumies (snd (fold (stepBall True) [0..<n] (False, s)))) = length (lumies s)
       \<and> width (snd (fold (stepBall True) [0..<n] (False, s))) = width s
       \<and> height (snd (fold (stepBall True) [0..<n] (False, s))) = height s
       \<and> playerColors (snd (fold (stepBall True) [0..<n] (False, s))) = playerColors s
       \<and> currentPlayer (snd (fold (stepBall True) [0..<n] (False, s))) = currentPlayer s
       \<and> turnChanges (snd (fold (stepBall True) [0..<n] (False, s))) = turnChanges s
       \<and> rnd (env (snd (fold (stepBall True) [0..<n] (False, s)))) = rnd (env s)
       \<and> (\<forall>k\<ge>n. getBall (snd (fold (stepBall True) [0..<n] (False, s))) k = getBall s k)
       \<and> (\<forall>k<n. ball_x (getBall (snd (fold (stepBall True) [0..<n] (False, s))) k)
                   = ball_x (getBall s k) + vx (getBall s k)
                \<and> ball_y (getBall (snd (fold (stepBall True) [0..<n] (False, s))) k)
                   = ball_y (getBall s k) + vy (getBall s k)
                \<and> ball_r (getBall (snd (fold (stepBall True) [0..<n] (False, s))) k)
                   = ball_r (getBall s k)
                \<and> mass (getBall (snd (fold (stepBall True) [0..<n] (False, s))) k)
                   = mass (getBall s k)
                \<and> isLumie (getBall (snd (fold (stepBall True) [0..<n] (False, s))) k)
                   = isLumie (getBall s k))"
  using assms
proof (induction n)
  case 0
  then show ?case by simp
next
  case (Suc n)
  define p where "p = fold (stepBall True) [0..<n] (False, s)"
  define q where "q = stepBall True n p"
  have pre: "n \<le> length (lumies s) + 1" "\<forall>k<n. staysInside s (getBall s k)"
    using Suc.prems by simp_all
  note ih0 = Suc.IH [OF pre, folded p_def]
  have ih: "length (lumies (snd p)) = length (lumies s)" "width (snd p) = width s"
    "height (snd p) = height s" "playerColors (snd p) = playerColors s"
    "currentPlayer (snd p) = currentPlayer s" "turnChanges (snd p) = turnChanges s"
    "rnd (env (snd p)) = rnd (env s)"
    using ih0 by blast+
  have same: "\<And>k. n \<le> k \<Longrightarrow> getBall (snd p) k = getBall s k"
    using ih0 by blast
  have prev: "\<And>k. k < n \<Longrightarrow>
       ball_x (getBall (snd p) k) = ball_x (getBall s k) + vx (getBall s k)
     \<and> ball_y (getBall (snd p) k) = ball_y (getBall s k) + vy (getBall s k)
     \<and> ball_r (getBall (snd p) k) = ball_r (getBall s k)
     \<and> mass (getBall (snd p) k) = mass (getBall s k)
     \<and> isLumie (getBall (snd p) k) = isLumie (getBall s k)"
    using ih0 by blast
  have p: "p = (fst p, snd p)" by simp
  have step: "fold (stepBall True) [0..<Suc n] (False, s) = q"
    by (simp add: p_def q_def)
  have n: "n \<le> length (lumies (snd p))"
    using Suc.prems ih(1) by simp
  have bn: "getBall (snd p) n = getBall s n"
    by (rule same) simp
  have inside: "staysInside (snd p) (getBall (snd p) n)"
    using Suc.prems(2) by (simp add: bn staysInside_cong [OF ih(2,3)])
  have new: "ball_x (getBall (snd q) n) = ball_x (getBall s n) + vx (getBall s n)
     \<and> ball_y (getBall (snd q) n) = ball_y (getBall s n) + vy (getBall s n)
     \<and> ball_r (getBall (snd q) n) = ball_r (getBall s n)
     \<and> mass (getBall (snd q) n) = mass (getBall s n)
     \<and> isLumie (getBall (snd q) n) = isLumie (getBall s n)"
    unfolding q_def
    by (subst (1 2 3 4 5) p) (simp only: stepBall_inside [OF n inside] bn)
  have others: "\<And>k. k \<noteq> n \<Longrightarrow> getBall (snd q) k = getBall (snd p) k"
    unfolding q_def by (rule stepBall_other)
  have fr: "length (lumies (snd q)) = length (lumies s)" "width (snd q) = width s"
    "height (snd q) = height s" "playerColors (snd q) = playerColors s"
    "currentPlayer (snd q) = currentPlayer s" "turnChanges (snd q) = turnChanges s"
    "rnd (env (snd q)) = rnd (env s)"
    unfolding q_def using ih by simp_all
  have later: "getBall (snd q) k = getBall s k" if "Suc n \<le> k" for k
    using that others [of k] same [of k] by simp
  have all: "ball_x (getBall (snd q) k) = ball_x (getBall s k) + vx (getBall s k)
     \<and> ball_y (getBall (snd q) k) = ball_y (getBall s k) + vy (getBall s k)
     \<and> ball_r (getBall (snd q) k) = ball_r (getBall s k)
     \<and> mass (getBall (snd q) k) = mass (getBall s k)
     \<and> isLumie (getBall (snd q) k) = isLumie (getBall s k)" if "k < Suc n" for k
  proof (cases "k = n")
    case True
    then show ?thesis using new by simp
  next
    case False
    then have "k < n" using that by simp
    then show ?thesis using others [OF False] prev [of k] by simp
  qed
  show ?case
    unfolding step using fr later all by blast
qed

subsection \<open>Collisions when few balls overlap\<close>

lemma fold_id:
  assumes "\<And>x. x \<in> set xs \<Longrightarrow> f x s = s"
  shows "fold f xs s = s"
  using assms by (induction xs) simp_all

lemma collisions_none:
  assumes "\<And>i j. i < j \<Longrightarrow> j < n \<Longrightarrow>
             \<not> centerDistance (getBall s i) (getBall s j) < ball_r (getBall s i) + ball_r (getBall s j)"
  shows "collisions n s = s"
  unfolding collisions_def
proof (rule fold_id)
  fix i assume "i \<in> set [0..<n]"
  show "fold (\<lambda>j. resolveCollision i j) [i + 1..<n] s = s"
  proof (rule fold_id)
    fix j assume "j \<in> set [i + 1..<n]"
    then have "i < j" "j < n" by simp_all
    then show "resolveCollision i j s = s"
      by (intro resolveCollision_no_overlap assms)
  qed
qed

lemma collisions_first_pair:
  assumes n: "2 \<le> n"
    and rest: "\<And>i j. i < j \<Longrightarrow> j < n \<Longrightarrow> \<not> (i = 0 \<and> j = 1) \<Longrightarrow>
             \<not> centerDistance (getBall (resolveCollision 0 1 s) i) (getBall (resolveCollision 0 1 s) j)
                < ball_r (getBall (resolveCollision 0 1 s) i) + ball_r (getBall (resolveCollision 0 1 s) j)"
  shows "collisions n s = resolveCollision 0 1 s"
proof -
  let ?t = "resolveCollision 0 1 s"
  have outer: "[0..<n] = 0 # [1..<n]"
    using n by (simp add: upt_conv_Cons)
  have inner: "[0 + 1..<n] = 1 # [2..<n]"
    using n by (simp add: upt_conv_Cons numeral_2_eq_2)
  have row0: "fold (\<lambda>j. resolveCollision 0 j) [2..<n] ?t = ?t"
  proof (rule fold_id)
    fix j assume "j \<in> set [2..<n]"
    then have "0 < j" "j < n" "\<not> (0 = (0::nat) \<and> j = 1)" by simp_all
    then show "resolveCollision 0 j ?t = ?t"
      by (intro resolveCollision_no_overlap rest)
  qed
  have rows: "fold (\<lambda>i. fold (\<lambda>j. resolveCollision i j) [i + 1..<n]) [1..<n] ?t = ?t"
  proof (rule fold_id)
    fix i assume i: "i \<in> set [1..<n]"
    show "fold (\<lambda>j. resolveCollision i j) [i + 1..<n] ?t = ?t"
    proof (rule fold_id)
      fix j assume "j \<in> set [i + 1..<n]"
      then have "i < j" "j < n" "\<not> (i = 0 \<and> j = 1)" using i by simp_all
      then show "resolveCollision i j ?t = ?t"
        by (intro resolveCollision_no_overlap rest)
    qed
  qed
  show ?thesis
    by (simp only: collisions_def outer inner fold_Cons o_apply row0 rows)
qed

lemma onHitLumie_env [simp]:
  "rnd (env (onHitLumie k s)) = rnd (env s)"
  "clk (env (onHitLumie k s)) = clk (env s)"
  by (simp_all add: onHitLumie_def updateScores_def gameOver_def Date_now_def Math_random_def
      Let_def split_def)

lemma resolveCollision_spin:
  assumes "i \<noteq> j" "i \<le> length (lumies s)" "j \<le> length (lumies s)"
    and "centerDistance (getBall s i) (getBall s j) < ball_r (getBall s i) + ball_r (getBall s j)"
    and "rnd (env s) = (\<lambda>_. c)"
  shows "angularVelocity (getBall (resolveCollision i j s) i)
         = angularVelocity (getBall s i) + Fin (c - 0.5)"
  using assms
  by (simp add: resolveCollision_def Let_def split_def Math_random_def getBall_setBall_same
      getBall_setBall_other centerDistance_def)

lemma getBall_endTurn:
  "k < length (lumies s) \<Longrightarrow> getBall (endTurn s) k = getBall s k"
  by (simp add: getBall_def allBalls_def nth_append)

lemma draw_frame [simp]:
  "currentPlayer (draw s) = currentPlayer s" "turnState (draw s) = turnState s"
  "lumies (draw s) = lumies s" "playerColors (draw s) = playerColors s"
  by (simp_all add: draw_def)

lemma less_six: "k < 6 \<longleftrightarrow> k = 0 \<or> k = 1 \<or> k = 2 \<or> k = 3 \<or> k = 4 \<or> k = (5::nat)"
  by arith

section \<open>The roll after a winning conversion\<close>

lemma ex_late_env_simps:
  "rnd ex_late_env n = 3 / 4" "clk ex_late_env n = 5000" "rpos ex_late_env = 0"
  "cpos ex_late_env = 0" "rnd ex_late_env = (\<lambda>_. 3 / 4)"
  by (simp_all add: ex_late_env_def ex_env_def)

lemma ex_last_late_simps:
  "lumies ex_last_late = [ex_ball 20 100 Blue True, ex_ball 20 170 Blue True,
                          ex_ball 20 240 Blue True, ex_ball 20 310 Blue True,
                          ex_ball 20 380 Green True]"
  "playerBall ex_last_late = ex_ball 22 450 Gold False"
  "env ex_last_late = ex_late_env" "turnChanges ex_last_late = []"
  "playerColors ex_last_late = [1 \<mapsto> Green, 2 \<mapsto> Blue]"
  "currentPlayer ex_last_late = 1" "turnState ex_last_late = Rolling"
  "turnStartTime ex_last_late = Some 900"
  "width ex_last_late = Fin 480" "height ex_last_late = Fin 600" "modal ex_last_late = None"
  by (simp_all add: ex_last_late_def ex_last_simps)

lemma ex_last_late_unlocked: "\<not> nextTime ex_last_late < lockedUntil (getBall ex_last_late 4)"
  by (simp add: nextTime_def getBall_def allBalls_def ex_last_late_simps ex_late_env_simps
      ex_ball_simps)

lemma ex_won_lumies:
  "lumies (onHitLumie 4 ex_last_late) =
     [ex_ball 20 100 Blue True, ex_ball 20 170 Blue True, ex_ball 20 240 Blue True,
      ex_ball 20 310 Blue True, (ex_ball 20 380 Blue True)\<lparr>lockedUntil := 9000\<rparr>]"
  using onHitLumie_unlocked_lumies [OF ex_last_late_unlocked]
  by (simp add: ex_last_late_simps ex_late_env_simps hitColor_def cooldown_def ex_ball_def)

lemma ex_won_playerBall:
  "getBall (onHitLumie 4 ex_last_late) 5 = ex_ball 22 450 Gold False"
  by (simp add: onHitLumie_other) (simp add: getBall_def allBalls_def ex_last_late_simps)

lemma ex_won_simps:
  "score Blue (onHitLumie 4 ex_last_late) = 5"
  "modal (onHitLumie 4 ex_last_late) = Some Blue"
  "turnState (onHitLumie 4 ex_last_late) = Rolling"
  "currentPlayer (onHitLumie 4 ex_last_late) = 1"
  "playerColors (onHitLumie 4 ex_last_late) = [1 \<mapsto> Green, 2 \<mapsto> Blue]"
  "turnChanges (onHitLumie 4 ex_last_late) = [\<lparr>ch_ball = 4, before = Green, after = Blue\<rparr>]"
  "turnStartTime (onHitLumie 4 ex_last_late) = Some 900"
  "width (onHitLumie 4 ex_last_late) = Fin 480" "height (onHitLumie 4 ex_last_late) = Fin 600"
  "nextTime (onHitLumie 4 ex_last_late) = 5000"
proof -
  show sc: "score Blue (onHitLumie 4 ex_last_late) = 5"
    by (simp add: score_def ex_won_lumies ex_ball_simps)
  show "modal (onHitLumie 4 ex_last_late) = Some Blue"
    by (simp add: onHitLumie_modal [OF ex_last_late_unlocked] sc)
  show "playerColors (onHitLumie 4 ex_last_late) = [1 \<mapsto> Green, 2 \<mapsto> Blue]"
    by (simp add: onHitLumie_keeps_colours unassigned_def ex_last_late_simps)
  show "turnChanges (onHitLumie 4 ex_last_late) = [\<lparr>ch_ball = 4, before = Green, after = Blue\<rparr>]"
    by (simp add: onHitLumie_unlocked_changes [OF ex_last_late_unlocked])
       (simp add: getBall_def allBalls_def ex_last_late_simps ex_ball_simps hitColor_def)
qed (simp_all add: ex_last_late_simps nextTime_def ex_late_env_simps)

lemma ex_won_balls:
  "getBall (onHitLumie 4 ex_last_late) 0 = ex_ball 20 100 Blue True"
  "getBall (onHitLumie 4 ex_last_late) 1 = ex_ball 20 170 Blue True"
  "getBall (onHitLumie 4 ex_last_late) (Suc 0) = ex_ball 20 170 Blue True"
  "getBall (onHitLumie 4 ex_last_late) 2 = ex_ball 20 240 Blue True"
  "getBall (onHitLumie 4 ex_last_late) 3 = ex_ball 20 310 Blue True"
  "getBall (onHitLumie 4 ex_last_late) 4 = (ex_ball 20 380 Blue True)\<lparr>lockedUntil := 9000\<rparr>"
  "length (allBalls (onHitLumie 4 ex_last_late)) = 6"
  by (simp_all add: getBall_def allBalls_def ex_won_lumies)

text \<open>
  Claim C3 fails on the code. Player 1 has green and four lumies are blue; the roll of
  player 1 turns the last green lumie blue, so blue reaches 5 and \<open>gameOver\<close> shows the
  modal for blue. The turn state is still rolling, and the next frame, 4100 ms into the
  roll, evaluates the roll as usual: \<open>endTurn\<close> gives the turn to player 2 and the state
  machine is back to aiming.
\<close>

theorem roll_goes_on_after_win:
  "score Blue (onHitLumie 4 ex_last_late) = 5
   \<and> modal (onHitLumie 4 ex_last_late) = Some Blue
   \<and> turnState (onHitLumie 4 ex_last_late) = Rolling
   \<and> currentPlayer (onHitLumie 4 ex_last_late) = 1
   \<and> loop (onHitLumie 4 ex_last_late)
       = draw (endTurn (snd (updatePositions True 6
           ((onHitLumie 4 ex_last_late)\<lparr>env := snd (Date_now (env (onHitLumie 4 ex_last_late)))\<rparr>))))
   \<and> currentPlayer (loop (onHitLumie 4 ex_last_late)) = 2
   \<and> turnState (loop (onHitLumie 4 ex_last_late)) = Aiming"
proof -
  define w where "w = onHitLumie 4 ex_last_late"
  define s1 where "s1 = w\<lparr>env := snd (Date_now (env w))\<rparr>"
  define s2 where "s2 = snd (updatePositions True 6 s1)"
  note W = ex_won_simps [folded w_def]
  note B = ex_won_balls [folded w_def] ex_won_playerBall [folded w_def]
  have late: "3000 < nextTime w - (case turnStartTime w of None \<Rightarrow> 0 | Some t \<Rightarrow> t)"
    by (simp add: W)
  have eq: "updatePhysics w = endTurn (collisions 6 s2)"
    using updatePhysics_late [OF late W(3)]
    by (simp add: B s1_def s2_def)
  have len: "6 \<le> length (lumies s1) + 1"
    using B(7) by (simp add: s1_def allBalls_def)
  have inside: "\<forall>k<6. staysInside s1 (getBall s1 k)"
    by (auto simp: less_six s1_def staysInside_def B W ex_ball_simps minus_num_def)
  note pos = updatePositions_inside_upto [OF len inside, folded updatePositions_def,
      folded s2_def]
  have posk: "ball_x (getBall s2 k) = ball_x (getBall s1 k) + vx (getBall s1 k)
            \<and> ball_y (getBall s2 k) = ball_y (getBall s1 k) + vy (getBall s1 k)
            \<and> ball_r (getBall s2 k) = ball_r (getBall s1 k)" if "k < 6" for k
    using pos that by blast
  have P: "ball_x (getBall s2 0) = Fin 100" "ball_x (getBall s2 1) = Fin 170"
    "ball_x (getBall s2 2) = Fin 240" "ball_x (getBall s2 3) = Fin 310"
    "ball_x (getBall s2 4) = Fin 380" "ball_x (getBall s2 5) = Fin 450"
    "ball_y (getBall s2 0) = Fin 300" "ball_y (getBall s2 1) = Fin 300"
    "ball_y (getBall s2 2) = Fin 300" "ball_y (getBall s2 3) = Fin 300"
    "ball_y (getBall s2 4) = Fin 300" "ball_y (getBall s2 5) = Fin 300"
    "ball_r (getBall s2 0) = Fin 20" "ball_r (getBall s2 1) = Fin 20"
    "ball_r (getBall s2 2) = Fin 20" "ball_r (getBall s2 3) = Fin 20"
    "ball_r (getBall s2 4) = Fin 20" "ball_r (getBall s2 5) = Fin 22"
    using posk [of 0] posk [of 1] posk [of 2] posk [of 3] posk [of 4] posk [of 5]
    by (simp_all add: s1_def B ex_ball_simps)
  have apart: "\<not> centerDistance (getBall s2 i) (getBall s2 j)
                  < ball_r (getBall s2 i) + ball_r (getBall s2 j)"
    if "i < j" "j < 6" for i j
  proof -
    have "i < 6" using that by simp
    then show ?thesis
      using that
      by (auto simp: less_six centerDistance_def P P [unfolded One_nat_def] minus_num_def
          simp del: Math_hypot.simps)
  qed
  have none: "collisions 6 s2 = s2"
    by (rule collisions_none) (rule apart)
  have fr: "playerColors s2 = [1 \<mapsto> Green, 2 \<mapsto> Blue]" "currentPlayer s2 = 1"
    "turnChanges s2 = [\<lparr>ch_ball = 4, before = Green, after = Blue\<rparr>]"
    using pos by (simp_all add: s1_def W)
  have cp: "currentPlayer (endTurn s2) = 2"
    by (simp add: endTurn_currentPlayer fr countAfter_def other_def)
  have lp: "loop w = draw (endTurn s2)"
    by (simp add: loop_def W eq none)
  show ?thesis
    unfolding w_def [symmetric] s1_def [symmetric] s2_def [symmetric]
    by (simp add: W lp cp)
qed

section \<open>A tick after the time limit\<close>

lemma ex_timeout_simps:
  "getBall ex_timeout 0 = (ex_ball 20 100 Red True)\<lparr>vx := Fin 5\<rparr>"
  "getBall ex_timeout 1 = ex_ball 20 141 Red True"
  "getBall ex_timeout (Suc 0) = ex_ball 20 141 Red True"
  "getBall ex_timeout 2 = ex_ball 20 240 Red True"
  "getBall ex_timeout 3 = ex_ball 20 310 Red True"
  "getBall ex_timeout 4 = ex_ball 20 380 Red True"
  "getBall ex_timeout 5 = ex_ball 22 450 Gold False"
  "length (allBalls ex_timeout) = 6" "length (lumies ex_timeout) = 5"
  "env ex_timeout = ex_late_env" "turnState ex_timeout = Rolling"
  "turnStartTime ex_timeout = Some 900" "nextTime ex_timeout = 5000"
  "width ex_timeout = Fin 480" "height ex_timeout = Fin 600"
  by (simp_all add: ex_timeout_def getBall_def allBalls_def ex_game_simps nextTime_def
      ex_late_env_simps)

text \<open>
  Claim C10 fails on the code in its angular part. 4100 ms into a roll the first lumie
  still rolls at speed 5 towards the second one, 41 away. The tick moves it to 36 away,
  sets every velocity to zero, and then resolves the collision of the two overlapping
  lumies, which adds the random kick to their angular velocities: at the end of the tick
  that ends the roll, the first lumie has angular velocity 1/4.
\<close>

theorem time_limit_tick_leaves_spin:
  "3000 < nextTime ex_timeout - (case turnStartTime ex_timeout of None \<Rightarrow> 0 | Some t \<Rightarrow> t)
   \<and> turnState ex_timeout = Rolling
   \<and> turnState (updatePhysics ex_timeout) = Aiming
   \<and> angularVelocity (getBall (updatePhysics ex_timeout) 0) = Fin (1 / 4)
   \<and> angularVelocity (getBall (updatePhysics ex_timeout) 0) \<noteq> Fin 0"
proof -
  define s1 where "s1 = ex_timeout\<lparr>env := snd (Date_now (env ex_timeout))\<rparr>"
  define s2 where "s2 = snd (updatePositions True 6 s1)"
  define s3 where "s3 = resolveCollision 0 1 s2"
  note E = ex_timeout_simps
  have late: "3000 < nextTime ex_timeout
               - (case turnStartTime ex_timeout of None \<Rightarrow> 0 | Some t \<Rightarrow> t)"
    by (simp add: E)
  have rolling: "turnState ex_timeout = Rolling"
    by (simp add: E)
  have eq: "updatePhysics ex_timeout = endTurn (collisions 6 s2)"
    using updatePhysics_late [OF late rolling]
    by (simp add: E s1_def s2_def)
  have len: "6 \<le> length (lumies s1) + 1"
    by (simp add: s1_def E)
  have inside: "\<forall>k<6. staysInside s1 (getBall s1 k)"
    by (auto simp: less_six s1_def staysInside_def E ex_ball_simps minus_num_def)
  note pos = updatePositions_inside_upto [OF len inside, folded updatePositions_def,
      folded s2_def]
  note lim = updatePositions_limit_upto [OF len, folded updatePositions_def, folded s2_def]
  have posk: "ball_x (getBall s2 k) = ball_x (getBall s1 k) + vx (getBall s1 k)
            \<and> ball_y (getBall s2 k) = ball_y (getBall s1 k) + vy (getBall s1 k)
            \<and> ball_r (getBall s2 k) = ball_r (getBall s1 k)" if "k < 6" for k
    using pos that by blast
  have P: "ball_x (getBall s2 0) = Fin 105" "ball_x (getBall s2 1) = Fin 141"
    "ball_x (getBall s2 2) = Fin 240" "ball_x (getBall s2 3) = Fin 310"
    "ball_x (getBall s2 4) = Fin 380" "ball_x (getBall s2 5) = Fin 450"
    "ball_y (getBall s2 0) = Fin 300" "ball_y (getBall s2 1) = Fin 300"
    "ball_y (getBall s2 2) = Fin 300" "ball_y (getBall s2 3) = Fin 300"
    "ball_y (getBall s2 4) = Fin 300" "ball_y (getBall s2 5) = Fin 300"
    "ball_r (getBall s2 0) = Fin 20" "ball_r (getBall s2 1) = Fin 20"
    "ball_r (getBall s2 2) = Fin 20" "ball_r (getBall s2 3) = Fin 20"
    "ball_r (getBall s2 4) = Fin 20" "ball_r (getBall s2 5) = Fin 22"
    using posk [of 0] posk [of 1] posk [of 2] posk [of 3] posk [of 4] posk [of 5]
    by (simp_all add: s1_def E ex_ball_simps)
  note P' = P P [unfolded One_nat_def]
  have rest0: "angularVelocity (getBall s2 0) = Fin 0"
    using lim by simp
  have rnd2: "rnd (env s2) = (\<lambda>_. 3 / 4)"
    using pos by (simp add: s1_def E Date_now_def ex_late_env_simps)
  have l2: "length (lumies s2) = 5"
    using pos by (simp add: s1_def E)
  have ij: "(0::nat) \<noteq> 1" "0 \<le> length (lumies s2)" "1 \<le> length (lumies s2)"
    by (simp_all add: l2)
  have cd: "centerDistance (getBall s2 0) (getBall s2 1) = Fin 36"
    by (simp add: centerDistance_def P' minus_num_def del: Math_hypot.simps)
  have ov: "centerDistance (getBall s2 0) (getBall s2 1)
            < ball_r (getBall s2 0) + ball_r (getBall s2 1)"
    unfolding cd by (simp add: P')
  have n: "contactNormal (getBall s2 0) (getBall s2 1) = (Fin 1, Fin 0)"
    unfolding contactNormal_def cd by (simp add: P' minus_num_def)
  have o: "overlapOf (getBall s2 0) (getBall s2 1) = Fin 4"
    unfolding overlapOf_def cd by (simp add: P' minus_num_def)
  note rp = resolveCollision_position [OF ij ov, unfolded n o, folded s3_def]
  note rm = resolveCollision_mass [OF ij ov, folded s3_def]
  have oth: "getBall s3 k = getBall s2 k" if "k \<noteq> 0" "k \<noteq> 1" for k
    unfolding s3_def using that by (rule resolveCollision_other)
  have Q: "ball_x (getBall s3 0) = Fin 103" "ball_x (getBall s3 1) = Fin 143"
    "ball_x (getBall s3 2) = Fin 240" "ball_x (getBall s3 3) = Fin 310"
    "ball_x (getBall s3 4) = Fin 380" "ball_x (getBall s3 5) = Fin 450"
    "ball_y (getBall s3 0) = Fin 300" "ball_y (getBall s3 1) = Fin 300"
    "ball_y (getBall s3 2) = Fin 300" "ball_y (getBall s3 3) = Fin 300"
    "ball_y (getBall s3 4) = Fin 300" "ball_y (getBall s3 5) = Fin 300"
    "ball_r (getBall s3 0) = Fin 20" "ball_r (getBall s3 1) = Fin 20"
    "ball_r (getBall s3 2) = Fin 20" "ball_r (getBall s3 3) = Fin 20"
    "ball_r (getBall s3 4) = Fin 20" "ball_r (getBall s3 5) = Fin 22"
    using rp rm by (simp_all add: oth P' minus_num_def)
  have apart: "\<not> centerDistance (getBall s3 i) (getBall s3 j)
                  < ball_r (getBall s3 i) + ball_r (getBall s3 j)"
    if "i < j" "j < 6" "\<not> (i = 0 \<and> j = 1)" for i j
  proof -
    have "i < 6" using that by simp
    then show ?thesis
      using that
      by (auto simp: less_six centerDistance_def Q Q [unfolded One_nat_def] minus_num_def
          simp del: Math_hypot.simps)
  qed
  have col: "collisions 6 s2 = s3"
    unfolding s3_def
    by (rule collisions_first_pair) (simp, rule apart [unfolded s3_def])
  have spin: "angularVelocity (getBall s3 0) = Fin (1 / 4)"
    using resolveCollision_spin [OF ij ov rnd2] by (simp add: s3_def rest0)
  have l3: "length (lumies s3) = 5"
    by (simp add: s3_def l2)
  have fin: "angularVelocity (getBall (updatePhysics ex_timeout) 0) = Fin (1 / 4)"
    by (simp add: eq col getBall_endTurn l3 spin)
  show ?thesis
    using late rolling fin by (simp add: eq)
qed

subsection \<open>Balls at rest stay at rest in a collision\<close>

lemma zeroOrNaN_simps [simp]: "zeroOrNaN (Fin 0)" "zeroOrNaN NaN"
  by (simp_all add: zeroOrNaN_def)

lemma zeroOrNaN_mult_left: "zeroOrNaN v \<Longrightarrow> zeroOrNaN (v * y)"
  by (cases y) (auto simp: zeroOrNaN_def)

lemma zeroOrNaN_mult_right: "zeroOrNaN v \<Longrightarrow> zeroOrNaN (y * v)"
  by (cases y) (auto simp: zeroOrNaN_def)

lemma zeroOrNaN_add: "zeroOrNaN v \<Longrightarrow> zeroOrNaN y \<Longrightarrow> zeroOrNaN (v + y)"
  by (auto simp: zeroOrNaN_def)

lemma zeroOrNaN_div: "zeroOrNaN v \<Longrightarrow> zeroOrNaN (v / y)"
  by (cases y) (auto simp: zeroOrNaN_def)

lemma resolveCollision_still:
  assumes ij: "i \<noteq> j" "i \<le> length (lumies s)" "j \<le> length (lumies s)"
    and z: "zeroOrNaN (vx (getBall s i))" "zeroOrNaN (vy (getBall s i))"
      "zeroOrNaN (vx (getBall s j))" "zeroOrNaN (vy (getBall s j))"
  shows "zeroOrNaN (vx (getBall (resolveCollision i j s) i))"
    and "zeroOrNaN (vy (getBall (resolveCollision i j s) i))"
    and "zeroOrNaN (vx (getBall (resolveCollision i j s) j))"
    and "zeroOrNaN (vy (getBall (resolveCollision i j s) j))"
proof -
  let ?b1 = "getBall s i" and ?b2 = "getBall s j"
  have nv: "zeroOrNaN (normalVelocity n ?b1)" "zeroOrNaN (normalVelocity n ?b2)"
    "zeroOrNaN (tangentVelocity n ?b1)" "zeroOrNaN (tangentVelocity n ?b2)" for n
    unfolding normalVelocity_def tangentVelocity_def
    by (intro zeroOrNaN_add zeroOrNaN_mult_left z)+
  have vn: "zeroOrNaN ((normalVelocity n ?b1 * d + c * normalVelocity n ?b2) / m)"
    "zeroOrNaN ((normalVelocity n ?b2 * d + c * normalVelocity n ?b1) / m)" for n d c m
    by (intro zeroOrNaN_div zeroOrNaN_add zeroOrNaN_mult_left zeroOrNaN_mult_right nv)+
  have all: "zeroOrNaN (vx (getBall (resolveCollision i j s) i))
     \<and> zeroOrNaN (vy (getBall (resolveCollision i j s) i))
     \<and> zeroOrNaN (vx (getBall (resolveCollision i j s) j))
     \<and> zeroOrNaN (vy (getBall (resolveCollision i j s) j))"
  proof (cases "centerDistance ?b1 ?b2 < ball_r ?b1 + ball_r ?b2")
    case False
    then show ?thesis
      using z by (simp add: resolveCollision_no_overlap)
  next
    case True
    note vel = resolveCollision_velocity [OF ij True]
    show ?thesis
      unfolding vel
      by (intro conjI zeroOrNaN_add zeroOrNaN_mult_right nv vn)
  qed
  then show "zeroOrNaN (vx (getBall (resolveCollision i j s) i))"
    "zeroOrNaN (vy (getBall (resolveCollision i j s) i))"
    "zeroOrNaN (vx (getBall (resolveCollision i j s) j))"
    "zeroOrNaN (vy (getBall (resolveCollision i j s) j))"
    by simp_all
qed

lemma fold_preserves_set:
  assumes "\<And>x s. x \<in> set xs \<Longrightarrow> P s \<Longrightarrow> P (f x s)" and "P s"
  shows "P (fold f xs s)"
  using assms by (induction xs arbitrary: s) simp_all

lemma still_resolveCollision:
  assumes "i < j" "j \<le> length (lumies s)" "still s"
  shows "still (resolveCollision i j s)"
  unfolding still_def
proof (intro allI impI)
  fix k assume "k \<le> length (lumies (resolveCollision i j s))"
  then have k: "k \<le> length (lumies s)" by simp
  have ij: "i \<noteq> j" "i \<le> length (lumies s)" "j \<le> length (lumies s)"
    using assms by simp_all
  have z: "zeroOrNaN (vx (getBall s m)) \<and> zeroOrNaN (vy (getBall s m))"
    if "m \<le> length (lumies s)" for m
    using assms(3) that by (simp add: still_def)
  note st = resolveCollision_still [OF ij conjunct1 [OF z [OF ij(2)]] conjunct2 [OF z [OF ij(2)]]
      conjunct1 [OF z [OF ij(3)]] conjunct2 [OF z [OF ij(3)]]]
  consider "k = i" | "k = j" | "k \<noteq> i" "k \<noteq> j" by blast
  then show "zeroOrNaN (vx (getBall (resolveCollision i j s) k))
           \<and> zeroOrNaN (vy (getBall (resolveCollision i j s) k))"
  proof cases
    case 1 then show ?thesis using st by simp
  next
    case 2 then show ?thesis using st by simp
  next
    case 3 then show ?thesis using z [OF k] by (simp add: resolveCollision_other)
  qed
qed

lemma still_collisions:
  assumes "n \<le> length (lumies s) + 1" and "still s"
  shows "still (collisions n s) \<and> length (lumies (collisions n s)) = length (lumies s)"
  unfolding collisions_def
proof (rule fold_preserves_set
    [where P = "\<lambda>t::game. still t \<and> length (lumies t) = length (lumies s)"])
  fix i and t :: game
  assume i: "i \<in> set [0..<n]" and t: "still t \<and> length (lumies t) = length (lumies s)"
  show "still (fold (\<lambda>j. resolveCollision i j) [i + 1..<n] t)
        \<and> length (lumies (fold (\<lambda>j. resolveCollision i j) [i + 1..<n] t)) = length (lumies s)"
  proof (rule fold_preserves_set
      [where P = "\<lambda>t::game. still t \<and> length (lumies t) = length (lumies s)"])
    fix j and u :: game
    assume j: "j \<in> set [i + 1..<n]" and u: "still u \<and> length (lumies u) = length (lumies s)"
    have "i < j" "j \<le> length (lumies u)"
      using j u assms(1) by simp_all
    then show "still (resolveCollision i j u)
               \<and> length (lumies (resolveCollision i j u)) = length (lumies s)"
      using u by (simp add: still_resolveCollision)
  qed (rule t)
qed (simp add: assms(2))

lemma endTurn_playerBall:
  "vx (playerBall (endTurn s)) = Fin 0" "vy (playerBall (endTurn s)) = Fin 0"
  "angularVelocity (playerBall (endTurn s)) = Fin 0"
  by (simp_all add: endTurn_def resetPlayerBall_def new_Ball_def Math_random_def Let_def
      split_def split: option.splits)

lemma getBall_endTurn_player:
  "getBall (endTurn s) (length (lumies s)) = playerBall (endTurn s)"
  by (simp add: getBall_def allBalls_def nth_append)

text \<open>
  Claim C10, as the code has it. In a tick of a roll whose elapsed time exceeds 3000 ms,
  the loop that updates the positions sets the linear velocity and the angular velocity
  of every ball to zero right after the ball's update, whatever its speed, so that the
  flag \<open>moving\<close> stays false; the tick then resolves the collisions and ends the roll with
  \<open>endTurn\<close>, and the turn state is no longer rolling. At the end of the tick no ball has
  a linear velocity other than zero (a component is zero, or \<open>NaN\<close> where centres
  coincided). When no two balls overlap after the moves of that tick, every ball also has
  angular velocity zero at the end of the tick; balls that do overlap get the random
  angular kick of collision resolution after the zeroing.
\<close>

theorem updatePhysics_after_limit:
  fixes s
  defines "n \<equiv> length (allBalls s)"
  defines "s1 \<equiv> s\<lparr>env := snd (Date_now (env s))\<rparr>"
  defines "s2 \<equiv> snd (updatePositions True n s1)"
  assumes late: "3000 < nextTime s - (case turnStartTime s of None \<Rightarrow> 0 | Some t \<Rightarrow> t)"
    and rolling: "turnState s = Rolling"
  shows "(\<forall>k<n. vx (getBall s2 k) = Fin 0 \<and> vy (getBall s2 k) = Fin 0
              \<and> angularVelocity (getBall s2 k) = Fin 0)
       \<and> fst (updatePositions True n s1) = False
       \<and> updatePhysics s = endTurn (collisions n s2)
       \<and> turnState (updatePhysics s) = Aiming
       \<and> (\<forall>k<n. (vx (getBall (updatePhysics s) k) = Fin 0 \<or> vx (getBall (updatePhysics s) k) = NaN)
              \<and> (vy (getBall (updatePhysics s) k) = Fin 0 \<or> vy (getBall (updatePhysics s) k) = NaN))
       \<and> ((\<forall>i j. i < j \<and> j < n \<longrightarrow>
               \<not> centerDistance (getBall s2 i) (getBall s2 j)
                   < ball_r (getBall s2 i) + ball_r (getBall s2 j)) \<longrightarrow>
            (\<forall>k<n. vx (getBall (updatePhysics s) k) = Fin 0
                  \<and> vy (getBall (updatePhysics s) k) = Fin 0
                  \<and> angularVelocity (getBall (updatePhysics s) k) = Fin 0))"
proof -
  have n: "n \<le> length (lumies s1) + 1"
    by (simp add: n_def s1_def allBalls_def)
  note up = updatePositions_limit_upto [OF n, folded updatePositions_def, folded s2_def]
  note eq = updatePhysics_late [OF late rolling, folded n_def s1_def, folded s2_def]
  have l2: "length (lumies s2) = length (lumies s1)"
    using up by simp
  have nl: "n = length (lumies s2) + 1"
    by (simp add: l2) (simp add: n_def s1_def allBalls_def)
  have zero: "vx (getBall s2 k) = Fin 0 \<and> vy (getBall s2 k) = Fin 0
              \<and> angularVelocity (getBall s2 k) = Fin 0" if "k < n" for k
    using up that by blast
  have st2: "still s2"
    unfolding still_def using zero nl by simp
  have n2: "n \<le> length (lumies s2) + 1"
    using nl by simp
  note sc = still_collisions [OF n2 st2]
  have lc: "length (lumies (collisions n s2)) = length (lumies s2)"
    using sc by simp
  have ends: "(vx (getBall (updatePhysics s) k) = Fin 0 \<or> vx (getBall (updatePhysics s) k) = NaN)
            \<and> (vy (getBall (updatePhysics s) k) = Fin 0 \<or> vy (getBall (updatePhysics s) k) = NaN)"
    if "k < n" for k
  proof (cases "k < length (lumies s2)")
    case True
    then have "getBall (updatePhysics s) k = getBall (collisions n s2) k"
      by (simp add: eq getBall_endTurn lc)
    moreover have "zeroOrNaN (vx (getBall (collisions n s2) k))
                 \<and> zeroOrNaN (vy (getBall (collisions n s2) k))"
      using sc True by (simp add: still_def)
    ultimately show ?thesis by (simp add: zeroOrNaN_def)
  next
    case False
    then have "k = length (lumies (collisions n s2))"
      using that nl lc by simp
    then have "getBall (updatePhysics s) k = playerBall (endTurn (collisions n s2))"
      by (simp add: eq getBall_endTurn_player)
    then show ?thesis by (simp add: endTurn_playerBall)
  qed
  have calm: "vx (getBall (updatePhysics s) k) = Fin 0
            \<and> vy (getBall (updatePhysics s) k) = Fin 0
            \<and> angularVelocity (getBall (updatePhysics s) k) = Fin 0"
    if apart: "\<forall>i j. i < j \<and> j < n \<longrightarrow>
               \<not> centerDistance (getBall s2 i) (getBall s2 j)
                   < ball_r (getBall s2 i) + ball_r (getBall s2 j)"
      and k: "k < n" for k
  proof -
    have none: "collisions n s2 = s2"
      by (rule collisions_none) (use apart in blast)
    show ?thesis
    proof (cases "k < length (lumies s2)")
      case True
      then have "getBall (updatePhysics s) k = getBall s2 k"
        by (simp add: eq none getBall_endTurn)
      then show ?thesis using zero [OF k] by simp
    next
      case False
      then have "k = length (lumies s2)"
        using k nl by simp
      then have "getBall (updatePhysics s) k = playerBall (endTurn s2)"
        by (simp add: eq none getBall_endTurn_player)
      then show ?thesis by (simp add: endTurn_playerBall)
    qed
  qed
  have ts: "turnState (updatePhysics s) = Aiming"
    by (simp add: eq)
  show ?thesis
    using up eq ts ends calm by blast
qed

lemma ex_coasting_simps:
  "getBall ex_coasting 0 = (ex_ball 20 100 Red True)\<lparr>vx := Fin 5\<rparr>"
  "getBall ex_coasting 1 = ex_ball 20 170 Red True"
  "getBall ex_coasting (Suc 0) = ex_ball 20 170 Red True"
  "getBall ex_coasting 2 = ex_ball 20 240 Red True"
  "getBall ex_coasting 3 = ex_ball 20 310 Red True"
  "getBall ex_coasting 4 = ex_ball 20 380 Red True"
  "getBall ex_coasting 5 = ex_ball 22 450 Gold False"
  "length (allBalls ex_coasting) = 6" "length (lumies ex_coasting) = 5"
  "env ex_coasting = ex_late_env" "turnState ex_coasting = Rolling"
  "turnStartTime ex_coasting = Some 900" "nextTime ex_coasting = 5000"
  "width ex_coasting = Fin 480" "height ex_coasting = Fin 600"
  by (simp_all add: ex_coasting_def getBall_def allBalls_def ex_game_simps nextTime_def
      ex_late_env_simps)

theorem updatePhysics_after_limit_witness:
  "3000 < nextTime ex_coasting - (case turnStartTime ex_coasting of None \<Rightarrow> 0 | Some t \<Rightarrow> t)
   \<and> turnState ex_coasting = Rolling
   \<and> speed (getBall ex_coasting 0) = Fin 5
   \<and> (0::nat) < length (allBalls ex_coasting)
   \<and> vx (getBall (snd (updatePositions True 6
          (ex_coasting\<lparr>env := snd (Date_now (env ex_coasting))\<rparr>))) 0) = Fin 0
   \<and> fst (updatePositions True 6 (ex_coasting\<lparr>env := snd (Date_now (env ex_coasting))\<rparr>)) = False
   \<and> turnState (updatePhysics ex_coasting) = Aiming
   \<and> vx (getBall (updatePhysics ex_coasting) 0) = Fin 0
   \<and> vy (getBall (updatePhysics ex_coasting) 0) = Fin 0
   \<and> angularVelocity (getBall (updatePhysics ex_coasting) 0) = Fin 0"
proof -
  define s1 where "s1 = ex_coasting\<lparr>env := snd (Date_now (env ex_coasting))\<rparr>"
  define s2 where "s2 = snd (updatePositions True 6 s1)"
  note E = ex_coasting_simps
  have late: "3000 < nextTime ex_coasting
               - (case turnStartTime ex_coasting of None \<Rightarrow> 0 | Some t \<Rightarrow> t)"
    by (simp add: E)
  have rolling: "turnState ex_coasting = Rolling"
    by (simp add: E)
  have sp: "speed (getBall ex_coasting 0) = Fin 5"
    by (simp add: speed_def E ex_ball_simps del: Math_hypot.simps)
  have len: "6 \<le> length (lumies s1) + 1"
    by (simp add: s1_def E)
  have inside: "\<forall>k<6. staysInside s1 (getBall s1 k)"
    by (auto simp: less_six s1_def staysInside_def E ex_ball_simps minus_num_def)
  note pos = updatePositions_inside_upto [OF len inside, folded updatePositions_def,
      folded s2_def]
  have posk: "ball_x (getBall s2 k) = ball_x (getBall s1 k) + vx (getBall s1 k)
            \<and> ball_y (getBall s2 k) = ball_y (getBall s1 k) + vy (getBall s1 k)
            \<and> ball_r (getBall s2 k) = ball_r (getBall s1 k)" if "k < 6" for k
    using pos that by blast
  have P: "ball_x (getBall s2 0) = Fin 105" "ball_x (getBall s2 1) = Fin 170"
    "ball_x (getBall s2 2) = Fin 240" "ball_x (getBall s2 3) = Fin 310"
    "ball_x (getBall s2 4) = Fin 380" "ball_x (getBall s2 5) = Fin 450"
    "ball_y (getBall s2 0) = Fin 300" "ball_y (getBall s2 1) = Fin 300"
    "ball_y (getBall s2 2) = Fin 300" "ball_y (getBall s2 3) = Fin 300"
    "ball_y (getBall s2 4) = Fin 300" "ball_y (getBall s2 5) = Fin 300"
    "ball_r (getBall s2 0) = Fin 20" "ball_r (getBall s2 1) = Fin 20"
    "ball_r (getBall s2 2) = Fin 20" "ball_r (getBall s2 3) = Fin 20"
    "ball_r (getBall s2 4) = Fin 20" "ball_r (getBall s2 5) = Fin 22"
    using posk [of 0] posk [of 1] posk [of 2] posk [of 3] posk [of 4] posk [of 5]
    by (simp_all add: s1_def E ex_ball_simps)
  have apart: "\<forall>i j. i < j \<and> j < 6 \<longrightarrow>
                 \<not> centerDistance (getBall s2 i) (getBall s2 j)
                     < ball_r (getBall s2 i) + ball_r (getBall s2 j)"
  proof (intro allI impI)
    fix i j :: nat assume ij: "i < j \<and> j < 6"
    then have "i < 6" by simp
    then show "\<not> centerDistance (getBall s2 i) (getBall s2 j)
                  < ball_r (getBall s2 i) + ball_r (getBall s2 j)"
      using ij
      by (auto simp: less_six centerDistance_def P P [unfolded One_nat_def] minus_num_def
          simp del: Math_hypot.simps)
  qed
  note t = updatePhysics_after_limit [OF late rolling, unfolded E(8), folded s1_def,
      folded s2_def]
  have z: "vx (getBall s2 0) = Fin 0" "fst (updatePositions True 6 s1) = False"
    "turnState (updatePhysics ex_coasting) = Aiming"
    using t by auto
  have c: "vx (getBall (updatePhysics ex_coasting) 0) = Fin 0
         \<and> vy (getBall (updatePhysics ex_coasting) 0) = Fin 0
         \<and> angularVelocity (getBall (updatePhysics ex_coasting) 0) = Fin 0"
    using t apart by auto
  show ?thesis
    unfolding s1_def [symmetric] s2_def [symmetric]
    using late rolling sp apart z c by (simp add: E)
qed

end
